theory Spec2Isabelle
  imports Complex_Main "HOL-Library.AList" "HOL-Library.Char_ord" "HOL-Library.List_Lexorder"
    "HOL-Library.Product_Lexorder" "HOL-Library.Multiset"
begin

section \<open>Python values\<close>

text \<open>
  The plugin (\<^verbatim>\<open>action.py\<close>) works on parsed JSON payloads and on calibre metadata
  fields. Both are Python values: \<^verbatim>\<open>None\<close>, booleans, integers, floats, strings, lists
  and dictionaries with string keys. A float is represented by the rational number it
  denotes, so only finite floats are covered (no NaN, no infinities); an assignment to a
  dictionary key is \<open>AList.update\<close>, which replaces in place or appends, as a Python
  dictionary does.
\<close>

datatype pyval =
    PNone
  | PBool bool
  | PInt int
  | PFloat rat
  | PStr string
  | PList "pyval list"
  | PDict "(string \<times> pyval) list"

datatype error = AttributeError | TypeError

text \<open>The truth value of a Python value, as taken by \<^verbatim>\<open>if x:\<close> and \<^verbatim>\<open>not x\<close>.\<close>

fun truthy :: "pyval \<Rightarrow> bool" where
  "truthy PNone = False"
| "truthy (PBool b) = b"
| "truthy (PInt i) = (i \<noteq> 0)"
| "truthy (PFloat r) = (r \<noteq> 0)"
| "truthy (PStr s) = (s \<noteq> [])"
| "truthy (PList xs) = (xs \<noteq> [])"
| "truthy (PDict d) = (d \<noteq> [])"

text \<open>Lists and dictionaries cannot be dictionary keys: using one raises \<^verbatim>\<open>TypeError\<close>.\<close>

fun hashable :: "pyval \<Rightarrow> bool" where
  "hashable (PList xs) = False"
| "hashable (PDict d) = False"
| "hashable v = True"

text \<open>Booleans, integers and floats compare by numeric value (\<^verbatim>\<open>True == 1 == 1.0\<close>).\<close>

fun num_val :: "pyval \<Rightarrow> rat option" where
  "num_val (PBool b) = Some (if b then 1 else 0)"
| "num_val (PInt i) = Some (of_int i)"
| "num_val (PFloat r) = Some r"
| "num_val v = None"

text \<open>\<^verbatim>\<open>d.get(k)\<close> on a dictionary with string keys: \<^verbatim>\<open>None\<close> when the key is absent.\<close>

definition dict_get :: "(string \<times> pyval) list \<Rightarrow> string \<Rightarrow> pyval" where
  "dict_get d k = (case map_of d k of None \<Rightarrow> PNone | Some v \<Rightarrow> v)"

lemma size_map_of:
  "map_of d k = Some v \<Longrightarrow> size v < Suc (size_list (size_prod (\<lambda>x. 0) size) d)"
  by (induction d) (auto split: if_splits)

lemma size_dict_get: "size (dict_get d k) < size (PDict d)"
proof (cases "map_of d k")
  case None
  then show ?thesis by (simp add: dict_get_def)
next
  case (Some v)
  have "size v < Suc (size_list (size_prod (\<lambda>x. 0) size) d)"
    using Some by (rule size_map_of)
  then show ?thesis using Some by (simp add: dict_get_def)
qed

lemma size_zip_fst: "(a, b) \<in> set (zip xs ys) \<Longrightarrow> size a < size (PList xs)"
proof -
  assume "(a, b) \<in> set (zip xs ys)"
  then have "a \<in> set xs" by (rule set_zip_leftD)
  then have "size a \<le> size_list size xs"
    using size_list_estimation' [of a xs "size a" size] by simp
  then show ?thesis by simp
qed

text \<open>Python's \<^verbatim>\<open>==\<close> on these values; \<^verbatim>\<open>!=\<close> is its negation.\<close>

function (sequential) py_eq :: "pyval \<Rightarrow> pyval \<Rightarrow> bool" where
  "py_eq PNone PNone = True"
| "py_eq (PStr a) (PStr b) = (a = b)"
| "py_eq (PList xs) (PList ys) =
     (length xs = length ys \<and> (\<forall>p \<in> set (zip xs ys). py_eq (fst p) (snd p)))"
| "py_eq (PDict a) (PDict b) =
     (set (map fst a) = set (map fst b) \<and>
      (\<forall>k \<in> set (map fst a). py_eq (dict_get a k) (dict_get b k)))"
| "py_eq x y = (case (num_val x, num_val y) of (Some p, Some q) \<Rightarrow> p = q | _ \<Rightarrow> False)"
  by pat_completeness auto
termination
proof (relation "measure (\<lambda>(x, y). size x)")
  show "wf (measure (\<lambda>(x, y). size x))" by simp
next
  fix xs ys :: "pyval list" and p
  assume "p \<in> set (zip xs ys)"
  then show "((fst p, snd p), (PList xs, PList ys)) \<in> measure (\<lambda>(x, y). size x)"
    using size_zip_fst [of "fst p" "snd p" xs ys] by (simp add: case_prod_beta)
next
  fix a b :: "(string \<times> pyval) list" and k
  show "((dict_get a k, dict_get b k), (PDict a, PDict b)) \<in> measure (\<lambda>(x, y). size x)"
    using size_dict_get [of a k] by simp
qed

definition py_ne :: "pyval \<Rightarrow> pyval \<Rightarrow> bool" where
  "py_ne x y = (\<not> py_eq x y)"

text \<open>
  A Python dictionary whose keys are arbitrary hashable values, in insertion order. A
  lookup finds the first key equal (\<^verbatim>\<open>==\<close>) to the one asked for; an assignment keeps
  the position and the key object of an existing entry.
\<close>

fun pd_get :: "(pyval \<times> 'v) list \<Rightarrow> pyval \<Rightarrow> 'v option" where
  "pd_get [] k = None"
| "pd_get ((k', v) # d) k = (if py_eq k' k then Some v else pd_get d k)"

fun pd_set :: "(pyval \<times> 'v) list \<Rightarrow> pyval \<Rightarrow> 'v \<Rightarrow> (pyval \<times> 'v) list" where
  "pd_set [] k v = [(k, v)]"
| "pd_set ((k', v') # d) k v = (if py_eq k' k then (k', v) # d else (k', v') # pd_set d k v)"

text \<open>
  \<^verbatim>\<open>x.get(k, default)\<close> on an arbitrary value: only a dictionary has the method, anything
  else raises \<^verbatim>\<open>AttributeError\<close>.
\<close>

definition py_get :: "pyval \<Rightarrow> string \<Rightarrow> pyval \<Rightarrow> error + pyval" where
  "py_get x k dflt =
     (case x of
        PDict d \<Rightarrow> Inr (case map_of d k of None \<Rightarrow> dflt | Some v \<Rightarrow> v)
      | _ \<Rightarrow> Inl AttributeError)"

text \<open>
  \<^verbatim>\<open>for x in v\<close>: a list yields its elements, a dictionary its keys, a string its
  characters; any other value raises \<^verbatim>\<open>TypeError\<close>.
\<close>

fun py_iter :: "pyval \<Rightarrow> error + pyval list" where
  "py_iter (PList xs) = Inr xs"
| "py_iter (PDict d) = Inr (map (\<lambda>kv. PStr (fst kv)) d)"
| "py_iter (PStr s) = Inr (map (\<lambda>c. PStr [c]) s)"
| "py_iter v = Inl TypeError"

section \<open>Nested-value extraction\<close>

text \<open>
  \<^verbatim>\<open>
  def get_nested_value(self, data, path):
      for key in path:
          if data is None:
              return None
          if isinstance(data, dict):
              data = data.get(key)
          else:
              return None
      return data
  \<close>
\<close>

fun get_nested_value :: "pyval \<Rightarrow> string list \<Rightarrow> pyval" where
  "get_nested_value data [] = data"
| "get_nested_value data (key # path) =
     (if data = PNone then PNone
      else (case data of
              PDict d \<Rightarrow> get_nested_value (dict_get d key) path
            | _ \<Rightarrow> PNone))"

section \<open>The local store\<close>

text \<open>
  calibre's database and its \<^verbatim>\<open>Metadata\<close> objects are external to the plugin. A
  metadata object carries the attributes the plugin reads (uuid, title, authors, the
  identifiers dictionary) and the values of the columns; \<^verbatim>\<open>metadata.get(key)\<close> and
  \<^verbatim>\<open>metadata.set(key, v)\<close> on a column name read and write the column map. The database
  is a key-value store: it keeps the metadata written to it, and every
  \<^verbatim>\<open>set_metadata\<close> call is recorded in \<open>db_writes\<close>, so that "no write" can be told
  from "a write of the same content".
\<close>

record metadata =
  md_uuid :: string
  md_title :: string
  md_authors :: "string list"
  md_identifiers :: "(string \<times> pyval) list"
  md_columns :: "string \<rightharpoonup> pyval"

definition md_get :: "metadata \<Rightarrow> string \<Rightarrow> pyval" where
  "md_get m key = (case md_columns m key of None \<Rightarrow> PNone | Some v \<Rightarrow> v)"

definition md_set :: "metadata \<Rightarrow> string \<Rightarrow> pyval \<Rightarrow> metadata" where
  "md_set m key v = m\<lparr>md_columns := (md_columns m)(key \<mapsto> v)\<rparr>"

record db =
  db_ids :: "nat list"
  db_meta :: "nat \<Rightarrow> metadata"
  db_writes :: "nat list"

definition get_metadata :: "db \<Rightarrow> nat \<Rightarrow> metadata" where
  "get_metadata d book_id = db_meta d book_id"

definition set_metadata :: "db \<Rightarrow> nat \<Rightarrow> metadata \<Rightarrow> db" where
  "set_metadata d book_id m =
     d\<lparr>db_meta := (db_meta d)(book_id := m), db_writes := db_writes d @ [book_id]\<rparr>"

text \<open>\<^verbatim>\<open>db.lookup_by_uuid\<close>: the id of the book with that uuid; \<open>None\<close> stands for both
  a \<^verbatim>\<open>None\<close> result and a raised exception, which the caller treats alike.\<close>

definition lookup_by_uuid :: "db \<Rightarrow> string \<Rightarrow> nat option" where
  "lookup_by_uuid d u = find (\<lambda>i. md_uuid (db_meta d i) = u) (db_ids d)"

section \<open>Applying an update set\<close>

text \<open>
  \<^verbatim>\<open>
  def update_metadata(self, book_uuid, keys_values_to_update):
      db = self.gui.current_db.new_api
      try:
          book_id = db.lookup_by_uuid(book_uuid)
      except Exception:
          return False, {'error': f"Book not found: {book_uuid}"}
      if not book_id:
          return False, {'error': f"Book not found: {book_uuid}"}
      metadata = db.get_metadata(book_id)
      updates = []
      for key, new_value in keys_values_to_update.items():
          old_value = metadata.get(key)
          if new_value != old_value:
              metadata.set(key, new_value)
              updates.append(key)
      if updates:
          db.set_metadata(book_id, metadata, set_title=False, set_authors=False)
      return True, {'updated': updates, 'book_id': book_id}
  \<close>
\<close>

datatype apply_detail = NotFound string | Updated "string list" nat

fun apply_updates ::
  "(string \<times> pyval) list \<Rightarrow> metadata \<Rightarrow> string list \<Rightarrow> metadata \<times> string list" where
  "apply_updates [] m updates = (m, updates)"
| "apply_updates ((key, new_value) # kvs) m updates =
     (let old_value = md_get m key in
      if py_ne new_value old_value
      then apply_updates kvs (md_set m key new_value) (updates @ [key])
      else apply_updates kvs m updates)"

definition update_metadata ::
  "db \<Rightarrow> string \<Rightarrow> (string \<times> pyval) list \<Rightarrow> (bool \<times> apply_detail) \<times> db" where
  "update_metadata d book_uuid keys_values_to_update =
     (case lookup_by_uuid d book_uuid of
        None \<Rightarrow> ((False, NotFound (''Book not found: '' @ book_uuid)), d)
      | Some book_id \<Rightarrow>
          if book_id = 0 then ((False, NotFound (''Book not found: '' @ book_uuid)), d)
          else
            (let metadata = get_metadata d book_id;
                 r = apply_updates keys_values_to_update metadata []
             in ((True, Updated (snd r) book_id),
                 if snd r \<noteq> [] then set_metadata d book_id (fst r) else d)))"

section \<open>Configuration and the field-mapping table\<close>

text \<open>
  \<^verbatim>\<open>CONFIG\<close> and \<^verbatim>\<open>CUSTOM_COLUMN_DEFAULTS\<close> (imported as \<^verbatim>\<open>COLUMNS\<close>) come from
  \<^verbatim>\<open>config.py\<close>, which is not part of the sources at hand; they are parameters of the
  model. \<^verbatim>\<open>CONFIG\<close> gives the connection settings and, per entry of the table, the name of
  the destination column (empty or absent: the field is not synchronised).
  \<^verbatim>\<open>COLUMNS\<close> is a dictionary from configuration names to entries, kept in insertion
  order; an entry's \<^verbatim>\<open>transform\<close> is optional and is a pure function on values.
\<close>

record config =
  abs_key :: string
  abs_library_id :: string
  column_names :: "string \<rightharpoonup> string"

definition config_get :: "config \<Rightarrow> string \<Rightarrow> string" where
  "config_get cfg config_name = (case column_names cfg config_name of None \<Rightarrow> [] | Some c \<Rightarrow> c)"

record col_meta =
  column_heading :: string
  data_location :: "string list"
  api_source :: string
  transform :: "(pyval \<Rightarrow> pyval) option"

section \<open>Indexing the fetched data\<close>

text \<open>
  \<^verbatim>\<open>
  if isinstance(items_data, dict) and "results" in items_data:
      items_list = items_data["results"]
  elif isinstance(items_data, list):
      items_list = items_data
  else:
      items_list = []
  \<close>
\<close>

definition unwrap_items :: "pyval \<Rightarrow> pyval" where
  "unwrap_items items_data =
     (case items_data of
        PDict d \<Rightarrow> (case map_of d ''results'' of Some r \<Rightarrow> r | None \<Rightarrow> PList [])
      | PList xs \<Rightarrow> PList xs
      | _ \<Rightarrow> PList [])"

text \<open>
  \<^verbatim>\<open>
  items_dict = {}
  for item in items_list:
      item_id = item.get('id')
      if item_id:
          items_dict[item_id] = item
  \<close>
  The progress index is built by the same loop over \<^verbatim>\<open>me_data.get('mediaProgress', [])\<close>
  with the key \<^verbatim>\<open>libraryItemId\<close>; \<open>index_by\<close> is that loop for a given key name.
\<close>

fun index_by ::
  "string \<Rightarrow> pyval list \<Rightarrow> (pyval \<times> pyval) list \<Rightarrow> error + (pyval \<times> pyval) list" where
  "index_by key [] acc = Inr acc"
| "index_by key (item # items) acc =
     (case py_get item key PNone of
        Inl e \<Rightarrow> Inl e
      | Inr item_id \<Rightarrow>
          if truthy item_id then
            (if hashable item_id then index_by key items (pd_set acc item_id item)
             else Inl TypeError)
          else index_by key items acc)"

definition build_items_dict :: "pyval \<Rightarrow> error + (pyval \<times> pyval) list" where
  "build_items_dict items_data =
     (case py_iter (unwrap_items items_data) of
        Inl e \<Rightarrow> Inl e
      | Inr items_list \<Rightarrow> index_by ''id'' items_list [])"

definition build_media_progress_dict :: "pyval \<Rightarrow> error + (pyval \<times> pyval) list" where
  "build_media_progress_dict me_data =
     (case py_get me_data ''mediaProgress'' (PList []) of
        Inl e \<Rightarrow> Inl e
      | Inr media_progress_list \<Rightarrow>
          (case py_iter media_progress_list of
             Inl e \<Rightarrow> Inl e
           | Inr progs \<Rightarrow> index_by ''libraryItemId'' progs []))"

section \<open>Reconciliation of one record\<close>

text \<open>
  An entry of the run report: the title, the changes shown as
  \<^verbatim>\<open>heading: old >> new\<close> (kept here as the heading with the two values), and the
  optional \<^verbatim>\<open>linked\<close> and \<^verbatim>\<open>error\<close> texts.
\<close>

record report_entry =
  r_title :: string
  r_changes :: "(string \<times> pyval \<times> pyval) list"
  r_linked :: "pyval option"
  r_error :: "string option"

definition new_entry :: "string \<Rightarrow> report_entry" where
  "new_entry t = \<lparr>r_title = t, r_changes = [], r_linked = None, r_error = None\<rparr>"

text \<open>
  The value of one field, before the transform:
  \<^verbatim>\<open>
  value = None
  if api_source == "mediaProgress":
      value = self.get_nested_value(progress_data, data_location)
      if col_meta['column_heading'] == "Audiobook Started" and value is None:
          value = True
  elif api_source == "lib_items":
      value = self.get_nested_value(item_data, data_location)
  elif api_source == "me":
      value = self.get_nested_value(me_data, data_location)
  \<close>
\<close>

definition extract_value :: "col_meta \<Rightarrow> pyval \<Rightarrow> pyval \<Rightarrow> pyval \<Rightarrow> pyval" where
  "extract_value cm item_data progress_data me_data =
     (if api_source cm = ''mediaProgress'' then
        (let v = get_nested_value progress_data (data_location cm) in
         if column_heading cm = ''Audiobook Started'' \<and> v = PNone then PBool True else v)
      else if api_source cm = ''lib_items'' then get_nested_value item_data (data_location cm)
      else if api_source cm = ''me'' then get_nested_value me_data (data_location cm)
      else PNone)"

text \<open>
  The freshly computed value of a field: the extracted value, passed through the
  transform when it is not \<^verbatim>\<open>None\<close> and a transform is given.
\<close>

definition computed_value :: "col_meta \<Rightarrow> pyval \<Rightarrow> pyval \<Rightarrow> pyval \<Rightarrow> pyval" where
  "computed_value cm item_data progress_data me_data =
     (let v = extract_value cm item_data progress_data me_data in
      if v \<noteq> PNone then (case transform cm of Some f \<Rightarrow> f v | None \<Rightarrow> v) else PNone)"

text \<open>
  The body of the loop over \<^verbatim>\<open>COLUMNS.items()\<close>, on the pair of the update set and the
  report entry built so far:
  \<^verbatim>\<open>
  column_name = CONFIG.get(config_name, '')
  if not column_name:
      continue
  ...
  if value is not None:
      if 'transform' in col_meta and callable(col_meta['transform']):
          value = col_meta['transform'](value)
      if value is not None:
          old_value = metadata.get(column_name)
          if old_value != value:
              keys_values_to_update[column_name] = value
              result[col_meta['column_heading']] = f"{old_value ...} >> {value}"
  \<close>
\<close>

definition sync_column ::
  "config \<Rightarrow> metadata \<Rightarrow> pyval \<Rightarrow> pyval \<Rightarrow> pyval \<Rightarrow> string \<times> col_meta \<Rightarrow>
   (string \<times> pyval) list \<times> report_entry \<Rightarrow> (string \<times> pyval) list \<times> report_entry" where
  "sync_column cfg metadata item_data progress_data me_data c acc =
     (let column_name = config_get cfg (fst c); cm = snd c in
      if column_name = [] then acc
      else
        (let v = computed_value cm item_data progress_data me_data in
         if v \<noteq> PNone then
           (let old_value = md_get metadata column_name in
            if py_ne old_value v then
              (AList.update column_name v (fst acc),
               (snd acc)\<lparr>r_changes :=
                  AList.update (column_heading cm) (old_value, v) (r_changes (snd acc))\<rparr>)
            else acc)
         else acc))"

definition reconcile ::
  "config \<Rightarrow> (string \<times> col_meta) list \<Rightarrow> metadata \<Rightarrow> pyval \<Rightarrow> pyval \<Rightarrow> pyval \<Rightarrow>
   (string \<times> pyval) list \<times> report_entry" where
  "reconcile cfg columns metadata item_data progress_data me_data =
     fold (sync_column cfg metadata item_data progress_data me_data) columns
       ([], new_entry (md_title metadata))"

definition update_set ::
  "config \<Rightarrow> (string \<times> col_meta) list \<Rightarrow> metadata \<Rightarrow> pyval \<Rightarrow> pyval \<Rightarrow> pyval \<Rightarrow>
   (string \<times> pyval) list" where
  "update_set cfg columns metadata item_data progress_data me_data =
     fst (reconcile cfg columns metadata item_data progress_data me_data)"

section \<open>The sync run\<close>

record sync_state =
  st_db :: db
  num_success :: nat
  num_fail :: nat
  num_skip :: nat
  results :: "report_entry list"

record sync_env =
  env_config :: config
  env_columns :: "(string \<times> col_meta) list"
  env_items_dict :: "(pyval \<times> pyval) list"
  env_media_progress_dict :: "(pyval \<times> pyval) list"
  env_me_data :: pyval

text \<open>
  \<^verbatim>\<open>progress_data = media_progress_dict.get(abs_id, {})\<close>
\<close>

definition progress_for :: "(pyval \<times> pyval) list \<Rightarrow> pyval \<Rightarrow> pyval" where
  "progress_for media_progress_dict abs_id =
     (case pd_get media_progress_dict abs_id of None \<Rightarrow> PDict [] | Some p \<Rightarrow> p)"

definition error_text :: "apply_detail \<Rightarrow> string" where
  "error_text detail = (case detail of NotFound msg \<Rightarrow> msg | Updated ks i \<Rightarrow> ''Unknown error'')"

text \<open>
  The body of the loop \<^verbatim>\<open>for book_id in all_book_ids\<close> of
  \<^verbatim>\<open>sync_from_audiobookshelf\<close>. The lookup \<^verbatim>\<open>items_dict.get(abs_id)\<close> raises
  \<^verbatim>\<open>TypeError\<close> for an unhashable identifier value.
\<close>

definition sync_book :: "sync_env \<Rightarrow> nat \<Rightarrow> sync_state \<Rightarrow> error + sync_state" where
  "sync_book env book_id st =
     (let metadata = get_metadata (st_db st) book_id;
          book_uuid = md_uuid metadata;
          identifiers = md_identifiers metadata;
          abs_id = dict_get identifiers ''audiobookshelf_id''
      in
      if \<not> truthy abs_id then Inr st
      else if \<not> hashable abs_id then Inl TypeError
      else
        (let item_data = (case pd_get (env_items_dict env) abs_id of None \<Rightarrow> PNone | Some i \<Rightarrow> i) in
         if \<not> truthy item_data then
           Inr (st\<lparr>results := results st @
                     [(new_entry (md_title metadata))
                        \<lparr>r_error := Some ''Audiobookshelf item not found''\<rparr>],
                   num_skip := num_skip st + 1\<rparr>)
         else
           (let progress_data = progress_for (env_media_progress_dict env) abs_id;
                r = reconcile (env_config env) (env_columns env) metadata item_data progress_data
                      (env_me_data env);
                keys_values_to_update = fst r;
                result = snd r
            in
            if keys_values_to_update \<noteq> [] then
              (let a = update_metadata (st_db st) book_uuid keys_values_to_update in
               if fst (fst a) then
                 Inr (st\<lparr>st_db := snd a, num_success := num_success st + 1,
                         results := results st @ [result]\<rparr>)
               else
                 Inr (st\<lparr>st_db := snd a, num_fail := num_fail st + 1,
                         results := results st @
                           [result\<lparr>r_error := Some (error_text (snd (fst a)))\<rparr>]\<rparr>))
            else
              Inr (st\<lparr>num_skip := num_skip st + 1, results := results st @ [result]\<rparr>))))"

fun sync_loop :: "sync_env \<Rightarrow> nat list \<Rightarrow> sync_state \<Rightarrow> error + sync_state" where
  "sync_loop env [] st = Inr st"
| "sync_loop env (book_id # ids) st =
     (case sync_book env book_id st of
        Inl e \<Rightarrow> Inl e
      | Inr st' \<Rightarrow> sync_loop env ids st')"

text \<open>
  The whole of \<^verbatim>\<open>sync_from_audiobookshelf\<close>. The two payloads are the results of
  \<^verbatim>\<open>api_request\<close>, which is \<^verbatim>\<open>None\<close> when the request failed. A run ends with a
  configuration error, an API error, a raised exception, or the final state.
\<close>

datatype 'a outcome = ConfigError | ApiError | Raised error | Completed 'a

definition init_state :: "db \<Rightarrow> sync_state" where
  "init_state d = \<lparr>st_db = d, num_success = 0, num_fail = 0, num_skip = 0, results = []\<rparr>"

definition sync_from_audiobookshelf ::
  "config \<Rightarrow> (string \<times> col_meta) list \<Rightarrow> pyval \<Rightarrow> pyval \<Rightarrow> db \<Rightarrow> sync_state outcome" where
  "sync_from_audiobookshelf cfg columns items_data me_data d =
     (if abs_key cfg = [] \<or> abs_library_id cfg = [] then ConfigError
      else if items_data = PNone \<or> me_data = PNone then ApiError
      else
        (case build_items_dict items_data of
           Inl e \<Rightarrow> Raised e
         | Inr items_dict \<Rightarrow>
             (case build_media_progress_dict me_data of
                Inl e \<Rightarrow> Raised e
              | Inr media_progress_dict \<Rightarrow>
                  (case sync_loop
                          \<lparr>env_config = cfg, env_columns = columns, env_items_dict = items_dict,
                           env_media_progress_dict = media_progress_dict, env_me_data = me_data\<rparr>
                          (db_ids d) (init_state d) of
                     Inl e \<Rightarrow> Raised e
                   | Inr st \<Rightarrow> Completed st))))"

text \<open>
  A record is linked when its identifiers hold a non-empty \<^verbatim>\<open>audiobookshelf_id\<close>: the
  loop skips every other record (\<^verbatim>\<open>if not abs_id: continue\<close>).
\<close>

definition linked :: "metadata \<Rightarrow> bool" where
  "linked m = truthy (dict_get (md_identifiers m) ''audiobookshelf_id'')"

section \<open>Quick linking by ISBN and ASIN\<close>

text \<open>\<^verbatim>\<open>item.get('media', {}).get('metadata', {})\<close>\<close>

definition item_metadata :: "pyval \<Rightarrow> error + pyval" where
  "item_metadata item =
     (case py_get item ''media'' (PDict []) of
        Inl e \<Rightarrow> Inl e
      | Inr media \<Rightarrow> py_get media ''metadata'' (PDict []))"

text \<open>The ISBN and the ASIN of a remote item, as the indexing loop reads them.\<close>

definition item_isbn_asin :: "pyval \<Rightarrow> error + pyval \<times> pyval" where
  "item_isbn_asin item =
     (case item_metadata item of
        Inl e \<Rightarrow> Inl e
      | Inr metadata_item \<Rightarrow>
          (case py_get metadata_item ''isbn'' PNone of
             Inl e \<Rightarrow> Inl e
           | Inr isbn \<Rightarrow>
               (case py_get metadata_item ''asin'' PNone of
                  Inl e \<Rightarrow> Inl e
                | Inr asin \<Rightarrow> Inr (isbn, asin))))"

text \<open>\<^verbatim>\<open>index.setdefault(k, []).append(item)\<close>\<close>

definition pd_append ::
  "(pyval \<times> pyval list) list \<Rightarrow> pyval \<Rightarrow> pyval \<Rightarrow> (pyval \<times> pyval list) list" where
  "pd_append index k item =
     pd_set index k ((case pd_get index k of None \<Rightarrow> [] | Some l \<Rightarrow> l) @ [item])"

text \<open>
  \<^verbatim>\<open>
  isbn_index = {}
  asin_index = {}
  for item in abs_items:
      media = item.get('media', {})
      metadata_item = media.get('metadata', {})
      isbn = metadata_item.get('isbn')
      asin = metadata_item.get('asin')
      if isbn:
          isbn_index.setdefault(isbn, []).append(item)
      if asin:
          asin_index.setdefault(asin, []).append(item)
  \<close>
\<close>

fun build_indexes ::
  "pyval list \<Rightarrow> (pyval \<times> pyval list) list \<Rightarrow> (pyval \<times> pyval list) list \<Rightarrow>
   error + (pyval \<times> pyval list) list \<times> (pyval \<times> pyval list) list" where
  "build_indexes [] isbn_index asin_index = Inr (isbn_index, asin_index)"
| "build_indexes (item # items) isbn_index asin_index =
     (case item_isbn_asin item of
        Inl e \<Rightarrow> Inl e
      | Inr (isbn, asin) \<Rightarrow>
          if truthy isbn \<and> \<not> hashable isbn then Inl TypeError
          else if truthy asin \<and> \<not> hashable asin then Inl TypeError
          else build_indexes items
                 (if truthy isbn then pd_append isbn_index isbn item else isbn_index)
                 (if truthy asin then pd_append asin_index asin item else asin_index))"

text \<open>
  One test of the matching chain:
  \<^verbatim>\<open>book_isbn and book_isbn in isbn_index and len(isbn_index[book_isbn]) == 1\<close>,
  giving \<^verbatim>\<open>isbn_index[book_isbn][0]\<close>.
\<close>

definition unique_match :: "(pyval \<times> pyval list) list \<Rightarrow> pyval \<Rightarrow> error + pyval option" where
  "unique_match index k =
     (if \<not> truthy k then Inr None
      else if \<not> hashable k then Inl TypeError
      else (case pd_get index k of
              Some [item] \<Rightarrow> Inr (Some item)
            | _ \<Rightarrow> Inr None))"

text \<open>
  \<^verbatim>\<open>
  matched_item = None
  if book_isbn and book_isbn in isbn_index and len(isbn_index[book_isbn]) == 1:
      matched_item = isbn_index[book_isbn][0]
  elif book_asin and book_asin in asin_index and len(asin_index[book_asin]) == 1:
      matched_item = asin_index[book_asin][0]
  \<close>
\<close>

definition find_match ::
  "(pyval \<times> pyval list) list \<Rightarrow> (pyval \<times> pyval list) list \<Rightarrow> (string \<times> pyval) list \<Rightarrow>
   error + pyval" where
  "find_match isbn_index asin_index identifiers =
     (let book_isbn = dict_get identifiers ''isbn'';
          book_asin = dict_get identifiers ''asin''
      in case unique_match isbn_index book_isbn of
           Inl e \<Rightarrow> Inl e
         | Inr (Some item) \<Rightarrow> Inr item
         | Inr None \<Rightarrow>
             (case unique_match asin_index book_asin of
                Inl e \<Rightarrow> Inl e
              | Inr (Some item) \<Rightarrow> Inr item
              | Inr None \<Rightarrow> Inr PNone))"

record ql_state =
  ql_db :: db
  num_linked :: nat
  num_failed :: nat
  ql_results :: "report_entry list"

text \<open>
  The body of the loop \<^verbatim>\<open>for book_id in all_book_ids\<close> of \<^verbatim>\<open>quick_link_books\<close>:
  \<^verbatim>\<open>
  metadata = db.get_metadata(book_id)
  identifiers = metadata.get('identifiers', {})
  if 'audiobookshelf_id' in identifiers:
      continue  # already linked
  ...
  if matched_item:
      abs_id = matched_item.get('id')
      abs_title = matched_item.get('media', {}).get('metadata', {}).get('title', 'Unknown Title')
      identifiers['audiobookshelf_id'] = abs_id
      metadata.set('identifiers', identifiers)
      db.set_metadata(book_id, metadata, set_title=False, set_authors=False)
      num_linked += 1
      results.append({'title': ..., 'linked': f'Linked to "{abs_title}"'})
  else:
      num_failed += 1
      results.append({'title': ..., 'error': 'No unique match found'})
  \<close>
\<close>

definition link_book :: "ql_state \<Rightarrow> nat \<Rightarrow> pyval \<Rightarrow> pyval \<Rightarrow> ql_state" where
  "link_book st book_id abs_id abs_title =
     (let metadata = get_metadata (ql_db st) book_id;
          identifiers = md_identifiers metadata
      in st\<lparr>ql_db :=
               set_metadata (ql_db st) book_id
                 (metadata\<lparr>md_identifiers :=
                    AList.update ''audiobookshelf_id'' abs_id identifiers\<rparr>),
             num_linked := num_linked st + 1,
             ql_results := ql_results st @
               [(new_entry (md_title metadata))\<lparr>r_linked := Some abs_title\<rparr>]\<rparr>)"

definition no_match_book :: "ql_state \<Rightarrow> nat \<Rightarrow> ql_state" where
  "no_match_book st book_id =
     st\<lparr>num_failed := num_failed st + 1,
        ql_results := ql_results st @
          [(new_entry (md_title (get_metadata (ql_db st) book_id)))
             \<lparr>r_error := Some ''No unique match found''\<rparr>]\<rparr>"

definition quick_link_book ::
  "(pyval \<times> pyval list) list \<Rightarrow> (pyval \<times> pyval list) list \<Rightarrow> nat \<Rightarrow> ql_state \<Rightarrow>
   error + ql_state" where
  "quick_link_book isbn_index asin_index book_id st =
     (let metadata = get_metadata (ql_db st) book_id;
          identifiers = md_identifiers metadata
      in
      if map_of identifiers ''audiobookshelf_id'' \<noteq> None then Inr st
      else
        (case find_match isbn_index asin_index identifiers of
           Inl e \<Rightarrow> Inl e
         | Inr matched_item \<Rightarrow>
             if truthy matched_item then
               (case py_get matched_item ''id'' PNone of
                  Inl e \<Rightarrow> Inl e
                | Inr abs_id \<Rightarrow>
                    (case item_metadata matched_item of
                       Inl e \<Rightarrow> Inl e
                     | Inr md \<Rightarrow>
                         (case py_get md ''title'' (PStr ''Unknown Title'') of
                            Inl e \<Rightarrow> Inl e
                          | Inr abs_title \<Rightarrow> Inr (link_book st book_id abs_id abs_title))))
             else Inr (no_match_book st book_id)))"

fun quick_link_loop ::
  "(pyval \<times> pyval list) list \<Rightarrow> (pyval \<times> pyval list) list \<Rightarrow> nat list \<Rightarrow> ql_state \<Rightarrow>
   error + ql_state" where
  "quick_link_loop isbn_index asin_index [] st = Inr st"
| "quick_link_loop isbn_index asin_index (book_id # ids) st =
     (case quick_link_book isbn_index asin_index book_id st of
        Inl e \<Rightarrow> Inl e
      | Inr st' \<Rightarrow> quick_link_loop isbn_index asin_index ids st')"

definition quick_link_books :: "config \<Rightarrow> pyval \<Rightarrow> db \<Rightarrow> ql_state outcome" where
  "quick_link_books cfg items_data d =
     (if abs_key cfg = [] \<or> abs_library_id cfg = [] then ConfigError
      else if items_data = PNone then ApiError
      else
        (case py_iter (unwrap_items items_data) of
           Inl e \<Rightarrow> Raised e
         | Inr abs_items \<Rightarrow>
             (case build_indexes abs_items [] [] of
                Inl e \<Rightarrow> Raised e
              | Inr (isbn_index, asin_index) \<Rightarrow>
                  (case quick_link_loop isbn_index asin_index (db_ids d)
                          \<lparr>ql_db = d, num_linked = 0, num_failed = 0, ql_results = []\<rparr> of
                     Inl e \<Rightarrow> Raised e
                   | Inr st \<Rightarrow> Completed st))))"

section \<open>Ranking candidates in the link dialog\<close>

text \<open>
  \<^verbatim>\<open>str.lower\<close> is Python's, on Unicode strings; it is a parameter \<open>lower\<close> of the
  model. Strings are ordered as Python orders them, lexicographically by character
  code, and the sort keys, pairs of an integer and a string, lexicographically.
  \<^verbatim>\<open>s.lower()\<close> on a value that is not a string raises \<^verbatim>\<open>AttributeError\<close>.
\<close>

definition py_lower :: "(string \<Rightarrow> string) \<Rightarrow> pyval \<Rightarrow> error + string" where
  "py_lower lower v = (case v of PStr s \<Rightarrow> Inr (lower s) | _ \<Rightarrow> Inl AttributeError)"

text \<open>
  \<^verbatim>\<open>
  def sort_key(item):
      metadata = item.get('media', {}).get('metadata', {})
      abs_title = metadata.get('title', '').lower()
      abs_author = metadata.get('authorName', '').lower()
      score = 0
      if abs_title == calibre_title:
          score += 1
      if abs_author in calibre_authors:
          score += 1
      return (-score, abs_title)
  \<close>
\<close>

definition match_score :: "string \<Rightarrow> string list \<Rightarrow> string \<Rightarrow> string \<Rightarrow> int" where
  "match_score calibre_title calibre_authors abs_title abs_author =
     (if abs_title = calibre_title then 1 else 0) +
     (if abs_author \<in> set calibre_authors then 1 else 0)"

definition sort_key_item ::
  "(string \<Rightarrow> string) \<Rightarrow> string \<Rightarrow> string list \<Rightarrow> pyval \<Rightarrow> error + int \<times> string" where
  "sort_key_item lower calibre_title calibre_authors item =
     (case item_metadata item of
        Inl e \<Rightarrow> Inl e
      | Inr md \<Rightarrow>
          (case py_get md ''title'' (PStr []) of
             Inl e \<Rightarrow> Inl e
           | Inr t \<Rightarrow>
               (case py_lower lower t of
                  Inl e \<Rightarrow> Inl e
                | Inr abs_title \<Rightarrow>
                    (case py_get md ''authorName'' (PStr []) of
                       Inl e \<Rightarrow> Inl e
                     | Inr a \<Rightarrow>
                         (case py_lower lower a of
                            Inl e \<Rightarrow> Inl e
                          | Inr abs_author \<Rightarrow>
                              Inr (- match_score calibre_title calibre_authors abs_title abs_author,
                                   abs_title))))))"

text \<open>The keys of all items, in order; the first failing item raises.\<close>

fun keys_of :: "('a \<Rightarrow> error + 'k) \<Rightarrow> 'a list \<Rightarrow> error + 'k list" where
  "keys_of f [] = Inr []"
| "keys_of f (x # xs) =
     (case f x of
        Inl e \<Rightarrow> Inl e
      | Inr k \<Rightarrow> (case keys_of f xs of Inl e \<Rightarrow> Inl e | Inr ks \<Rightarrow> Inr (k # ks)))"

text \<open>
  \<^verbatim>\<open>
  calibre_title = self.calibre_metadata.get('title', '').lower() if self.calibre_metadata else ''
  calibre_authors = self.calibre_metadata.get('authors', []) if self.calibre_metadata else []
  ...
  calibre_authors = [author.lower() for author in calibre_authors]
  ...
  sorted_items = sorted(items, key=sort_key)
  \<close>
  Python's \<^verbatim>\<open>sorted\<close> computes the key of every item once and sorts stably by it, as
  \<open>sort_key\<close> does on the items paired with their keys.
\<close>

definition link_dialog_items ::
  "(string \<Rightarrow> string) \<Rightarrow> metadata option \<Rightarrow> pyval list \<Rightarrow> error + pyval list" where
  "link_dialog_items lower calibre_metadata items =
     (let calibre_title = (case calibre_metadata of Some m \<Rightarrow> lower (md_title m) | None \<Rightarrow> []);
          calibre_authors = (case calibre_metadata of Some m \<Rightarrow> map lower (md_authors m) | None \<Rightarrow> [])
      in case keys_of (sort_key_item lower calibre_title calibre_authors) items of
           Inl e \<Rightarrow> Inl e
         | Inr ks \<Rightarrow> Inr (map snd (sort_key fst (zip ks items))))"

section \<open>Notions used in the statements\<close>

text \<open>
  A remote item shares an ISBN (an ASIN) \<open>k\<close> when the indexing loop reads a non-empty
  ISBN (ASIN) from it that equals \<open>k\<close>.
\<close>

definition shares_isbn :: "pyval \<Rightarrow> pyval \<Rightarrow> bool" where
  "shares_isbn k item =
     (case item_isbn_asin item of Inl e \<Rightarrow> False | Inr ia \<Rightarrow> truthy (fst ia) \<and> py_eq (fst ia) k)"

definition shares_asin :: "pyval \<Rightarrow> pyval \<Rightarrow> bool" where
  "shares_asin k item =
     (case item_isbn_asin item of Inl e \<Rightarrow> False | Inr ia \<Rightarrow> truthy (snd ia) \<and> py_eq (snd ia) k)"

text \<open>All keys of a dictionary are hashable, as they are in every dictionary Python builds.\<close>

definition keys_hashable :: "(pyval \<times> 'v) list \<Rightarrow> bool" where
  "keys_hashable d = (\<forall>k \<in> fst ` set d. hashable k)"

text \<open>
  Two stores agree on what the loops read to decide whether and under which title a book
  is reported: the identifiers and the title of every book.
\<close>

definition same_books :: "db \<Rightarrow> db \<Rightarrow> bool" where
  "same_books d d' =
     (\<forall>i. md_identifiers (db_meta d' i) = md_identifiers (db_meta d i) \<and>
          md_title (db_meta d' i) = md_title (db_meta d i))"

text \<open>
  Whether the loop body writes a table entry into the update set: the entry has a
  destination column, its freshly computed value is not \<^verbatim>\<open>None\<close>, and the value
  differs (\<^verbatim>\<open>!=\<close>) from the record's current value of the column.
\<close>

definition writes_field ::
  "config \<Rightarrow> metadata \<Rightarrow> pyval \<Rightarrow> pyval \<Rightarrow> pyval \<Rightarrow> string \<times> col_meta \<Rightarrow> bool" where
  "writes_field cfg m item_data progress_data me_data c =
     (config_get cfg (fst c) \<noteq> [] \<and>
      computed_value (snd c) item_data progress_data me_data \<noteq> PNone \<and>
      py_ne (md_get m (config_get cfg (fst c)))
        (computed_value (snd c) item_data progress_data me_data))"

text \<open>
  The list an index holds under a key after more items were appended to it.
\<close>

definition index_merge :: "pyval list option \<Rightarrow> pyval list \<Rightarrow> pyval list option" where
  "index_merge old new =
     (if new = [] then old else Some ((case old of None \<Rightarrow> [] | Some l \<Rightarrow> l) @ new))"

section \<open>Example data\<close>

text \<open>
  A small library and a small fetch, used to run the definitions. The library has three
  books: \<^emph>\<open>Dune\<close>, linked to the remote item \<^verbatim>\<open>li_1\<close>, marked as started and with a
  stored progress of \<open>0.25\<close>; \<^emph>\<open>Emma\<close>, not linked; \<^emph>\<open>Ulysses\<close>, linked to an item
  \<^verbatim>\<open>li_9\<close> that the server does not list. The server lists one item, \<^verbatim>\<open>li_1\<close>, and
  reports a progress of \<open>0.5\<close> for it. One field is configured: the progress, read from
  \<^verbatim>\<open>mediaProgress\<close> at the path \<^verbatim>\<open>progress\<close> into the column \<^verbatim>\<open>#abs_progress\<close>.
\<close>

definition ex_md :: metadata where
  "ex_md =
     \<lparr>md_uuid = ''u1'', md_title = ''Dune'', md_authors = [''Frank Herbert''],
      md_identifiers = [(''audiobookshelf_id'', PStr ''li_1'')],
      md_columns = [''#abs_started'' \<mapsto> PBool True, ''#abs_progress'' \<mapsto> PFloat (1 / 4)]\<rparr>"

definition ex_md_unlinked :: metadata where
  "ex_md_unlinked =
     \<lparr>md_uuid = ''u2'', md_title = ''Emma'', md_authors = [''Jane Austen''],
      md_identifiers = [(''isbn'', PStr ''9780141439587'')], md_columns = Map.empty\<rparr>"

definition ex_md_missing :: metadata where
  "ex_md_missing =
     \<lparr>md_uuid = ''u3'', md_title = ''Ulysses'', md_authors = [''James Joyce''],
      md_identifiers = [(''audiobookshelf_id'', PStr ''li_9'')], md_columns = Map.empty\<rparr>"

definition ex_library :: db where
  "ex_library =
     \<lparr>db_ids = [11, 12, 13],
      db_meta = (\<lambda>i. if i = 11 then ex_md else if i = 12 then ex_md_unlinked else ex_md_missing),
      db_writes = []\<rparr>"

definition ex_item :: pyval where
  "ex_item =
     PDict [(''id'', PStr ''li_1''),
            (''media'', PDict [(''metadata'',
               PDict [(''title'', PStr ''Dune''), (''authorName'', PStr ''Frank Herbert''),
                      (''isbn'', PStr ''9780441013593'')])])]"

definition ex_items_data :: pyval where
  "ex_items_data = PDict [(''results'', PList [ex_item])]"

definition ex_prog :: pyval where
  "ex_prog = PDict [(''libraryItemId'', PStr ''li_1''), (''progress'', PFloat (1 / 2))]"

definition ex_me_data :: pyval where
  "ex_me_data = PDict [(''mediaProgress'', PList [ex_prog])]"

definition ex_cfg :: config where
  "ex_cfg =
     \<lparr>abs_key = ''key'', abs_library_id = ''lib'',
      column_names = [''column_audiobook_progress'' \<mapsto> ''#abs_progress'']\<rparr>"

definition ex_columns :: "(string \<times> col_meta) list" where
  "ex_columns =
     [(''column_audiobook_progress'',
       \<lparr>column_heading = ''Audiobook Progress'', data_location = [''progress''],
        api_source = ''mediaProgress'', transform = None\<rparr>)]"

definition ex_env :: sync_env where
  "ex_env =
     \<lparr>env_config = ex_cfg, env_columns = ex_columns,
      env_items_dict = [(PStr ''li_1'', ex_item)],
      env_media_progress_dict = [(PStr ''li_1'', ex_prog)], env_me_data = ex_me_data\<rparr>"

text \<open>The states of the example run: after the first book, and at the end.\<close>

definition ex_synced :: db where
  "ex_synced = set_metadata ex_library 11 (md_set ex_md ''#abs_progress'' (PFloat (1 / 2)))"

definition ex_entry_updated :: report_entry where
  "ex_entry_updated =
     \<lparr>r_title = ''Dune'',
      r_changes = [(''Audiobook Progress'', PFloat (1 / 4), PFloat (1 / 2))],
      r_linked = None, r_error = None\<rparr>"

definition ex_entry_missing :: report_entry where
  "ex_entry_missing =
     \<lparr>r_title = ''Ulysses'', r_changes = [], r_linked = None,
      r_error = Some ''Audiobookshelf item not found''\<rparr>"

definition ex_state1 :: sync_state where
  "ex_state1 =
     \<lparr>st_db = ex_synced, num_success = 1, num_fail = 0, num_skip = 0,
      results = [ex_entry_updated]\<rparr>"

definition ex_final :: sync_state where
  "ex_final =
     \<lparr>st_db = ex_synced, num_success = 1, num_fail = 0, num_skip = 1,
      results = [ex_entry_updated, ex_entry_missing]\<rparr>"

text \<open>
  A second configuration, with the started flag as its only field, and a library whose
  one book is linked to \<^verbatim>\<open>li_1\<close> and has no column values yet; a user profile
  without any progress record; and the state in which a run over them ends.
\<close>

definition ex_started_col :: col_meta where
  "ex_started_col =
     \<lparr>column_heading = ''Audiobook Started'', data_location = [''isStarted''],
      api_source = ''mediaProgress'', transform = None\<rparr>"

definition ex_started_columns :: "(string \<times> col_meta) list" where
  "ex_started_columns = [(''column_audiobook_started'', ex_started_col)]"

definition ex_started_cfg :: config where
  "ex_started_cfg =
     \<lparr>abs_key = ''key'', abs_library_id = ''lib'',
      column_names = [''column_audiobook_started'' \<mapsto> ''#abs_started'']\<rparr>"

definition ex_md_new :: metadata where
  "ex_md_new =
     \<lparr>md_uuid = ''u4'', md_title = ''Dune'', md_authors = [''Frank Herbert''],
      md_identifiers = [(''audiobookshelf_id'', PStr ''li_1'')], md_columns = Map.empty\<rparr>"

definition ex_new_library :: db where
  "ex_new_library = \<lparr>db_ids = [21], db_meta = (\<lambda>i. ex_md_new), db_writes = []\<rparr>"

definition ex_me_empty :: pyval where
  "ex_me_empty = PDict [(''mediaProgress'', PList [])]"

definition ex_started_final :: sync_state where
  "ex_started_final =
     \<lparr>st_db = set_metadata ex_new_library 21 (md_set ex_md_new ''#abs_started'' (PBool True)),
      num_success = 1, num_fail = 0, num_skip = 0,
      results = [\<lparr>r_title = ''Dune'',
                  r_changes = [(''Audiobook Started'', PNone, PBool True)],
                  r_linked = None, r_error = None\<rparr>]\<rparr>"

text \<open>
  A third configuration, in which two fields of the table, the size and the number of
  files of an item, have the same destination column \<^verbatim>\<open>#abs_info\<close>; the column holds
  \<open>3\<close>, the item has size \<open>5\<close> and \<open>3\<close> files.
\<close>

definition ex_size_col :: col_meta where
  "ex_size_col =
     \<lparr>column_heading = ''Audiobook Size'', data_location = [''size''],
      api_source = ''lib_items'', transform = None\<rparr>"

definition ex_files_col :: col_meta where
  "ex_files_col =
     \<lparr>column_heading = ''Audiobook Files'', data_location = [''numFiles''],
      api_source = ''lib_items'', transform = None\<rparr>"

definition ex_shared_columns :: "(string \<times> col_meta) list" where
  "ex_shared_columns =
     [(''column_audiobook_size'', ex_size_col), (''column_audiobook_numfiles'', ex_files_col)]"

definition ex_shared_cfg :: config where
  "ex_shared_cfg =
     \<lparr>abs_key = ''key'', abs_library_id = ''lib'',
      column_names = [''column_audiobook_size'' \<mapsto> ''#abs_info'',
                      ''column_audiobook_numfiles'' \<mapsto> ''#abs_info'']\<rparr>"

definition ex_shared_item :: pyval where
  "ex_shared_item = PDict [(''id'', PStr ''li_1''), (''size'', PInt 5), (''numFiles'', PInt 3)]"

definition ex_md_shared :: metadata where
  "ex_md_shared =
     \<lparr>md_uuid = ''u5'', md_title = ''Dune'', md_authors = [''Frank Herbert''],
      md_identifiers = [(''audiobookshelf_id'', PStr ''li_1'')],
      md_columns = [''#abs_info'' \<mapsto> PInt 3]\<rparr>"

definition ex_shared_library :: db where
  "ex_shared_library = \<lparr>db_ids = [31], db_meta = (\<lambda>i. ex_md_shared), db_writes = []\<rparr>"

section \<open>Properties\<close>

subsection \<open>Python equality\<close>

lemma map_of_in_keys: "k \<in> set (map fst d) \<Longrightarrow> \<exists>v. map_of d k = Some v"
  by (induction d) auto

lemma py_eq_refl: "py_eq v v"
proof (induction v)
  case (PList xs)
  then show ?case by (auto simp: set_zip)
next
  case (PDict d)
  have "py_eq (dict_get d k) (dict_get d k)" if "k \<in> set (map fst d)" for k
  proof -
    from that have "\<exists>v. map_of d k = Some v" by (rule map_of_in_keys)
    then obtain v where v: "map_of d k = Some v" ..
    then have "(k, v) \<in> set d" by (rule map_of_SomeD)
    with PDict have "py_eq v v" by fastforce
    with v show ?thesis by (simp add: dict_get_def)
  qed
  then show ?case by simp
qed simp_all

lemma py_eq_sym: "py_eq x y = py_eq y x"
proof (induction x arbitrary: y)
  case (PList xs)
  show ?case
  proof (cases y)
    case (PList ys)
    have "(\<forall>p \<in> set (zip xs ys). py_eq (fst p) (snd p)) = (\<forall>p \<in> set (zip ys xs). py_eq (fst p) (snd p))"
    proof -
      have "py_eq a b = py_eq b a" if "(a, b) \<in> set (zip xs ys)" for a b
        using PList.IH [of a b] that by (auto dest: set_zip_leftD)
      moreover have "(b, a) \<in> set (zip ys xs) \<longleftrightarrow> (a, b) \<in> set (zip xs ys)" for a b
        by (auto simp: in_set_zip)
      ultimately show ?thesis by fastforce
    qed
    with PList show ?thesis by auto
  qed simp_all
next
  case (PDict a)
  show ?case
  proof (cases y)
    case (PDict b)
    have sym: "py_eq (dict_get a k) (dict_get b k) = py_eq (dict_get b k) (dict_get a k)"
      if "k \<in> set (map fst a)" for k
    proof -
      from that have "\<exists>v. map_of a k = Some v" by (rule map_of_in_keys)
      then obtain v where v: "map_of a k = Some v" ..
      then have "(k, v) \<in> set a" by (rule map_of_SomeD)
      then have "py_eq v w = py_eq w v" for w
        using PDict.IH [of "(k, v)" v w] by simp
      with v show ?thesis by (simp add: dict_get_def)
    qed
    show ?thesis
    proof (cases "set (map fst a) = set (map fst b)")
      case True
      with sym have "(\<forall>k \<in> set (map fst a). py_eq (dict_get a k) (dict_get b k)) =
          (\<forall>k \<in> set (map fst b). py_eq (dict_get b k) (dict_get a k))"
        by metis
      with True PDict show ?thesis by (simp only: py_eq.simps; simp)
    next
      case False
      then have "set (map fst b) \<noteq> set (map fst a)" by metis
      with False PDict show ?thesis by (simp only: py_eq.simps; simp)
    qed
  qed simp_all
next
  case PNone
  show ?case by (cases y) simp_all
next
  case (PBool b)
  show ?case by (cases y) auto
next
  case (PInt i)
  show ?case by (cases y) auto
next
  case (PFloat r)
  show ?case by (cases y) auto
next
  case (PStr s)
  show ?case by (cases y) auto
qed

subsection \<open>The example run\<close>

lemma ex_library_meta:
  "get_metadata ex_library 11 = ex_md"
  "get_metadata ex_library 12 = ex_md_unlinked"
  "get_metadata ex_library 13 = ex_md_missing"
  by (simp_all add: get_metadata_def ex_library_def)

lemma ex_library_fields:
  "db_ids ex_library = [11, 12, 13]"
  "db_writes ex_library = []"
  by (simp_all add: ex_library_def)

lemma ex_lookup: "lookup_by_uuid ex_library ''u1'' = Some 11"
  by (simp add: lookup_by_uuid_def ex_library_def ex_md_def)

lemma ex_synced_meta:
  "get_metadata ex_synced 12 = ex_md_unlinked"
  "get_metadata ex_synced 13 = ex_md_missing"
  by (simp_all add: get_metadata_def ex_synced_def set_metadata_def ex_library_def)

lemma ex_md_fields:
  "md_uuid ex_md = ''u1''"
  "md_title ex_md = ''Dune''"
  "md_identifiers ex_md = [(''audiobookshelf_id'', PStr ''li_1'')]"
  by (simp_all add: ex_md_def)

lemma ex_item_truthy: "truthy ex_item"
  by (simp add: ex_item_def)

lemma ex_items_dict: "build_items_dict ex_items_data = Inr [(PStr ''li_1'', ex_item)]"
  by (simp add: build_items_dict_def unwrap_items_def ex_items_data_def py_get_def ex_item_def)

lemma ex_media_progress_dict:
  "build_media_progress_dict ex_me_data = Inr [(PStr ''li_1'', ex_prog)]"
  by (simp add: build_media_progress_dict_def ex_me_data_def py_get_def ex_prog_def)

lemma ex_reconcile:
  "reconcile ex_cfg ex_columns ex_md ex_item ex_prog ex_me_data =
     ([(''#abs_progress'', PFloat (1 / 2))], ex_entry_updated)"
  by (simp add: reconcile_def ex_columns_def sync_column_def ex_cfg_def config_get_def
      computed_value_def extract_value_def ex_prog_def dict_get_def md_get_def ex_md_def
      py_ne_def new_entry_def ex_entry_updated_def Let_def)

lemma ex_update:
  "update_metadata ex_library ''u1'' [(''#abs_progress'', PFloat (1 / 2))] =
     ((True, Updated [''#abs_progress''] 11), ex_synced)"
  by (simp add: update_metadata_def ex_lookup ex_library_meta ex_synced_def ex_md_def md_get_def
      py_ne_def)

lemma ex_sync_book1: "sync_book ex_env 11 (init_state ex_library) = Inr ex_state1"
  by (simp add: sync_book_def init_state_def ex_library_meta ex_env_def ex_reconcile ex_update
      progress_for_def ex_state1_def ex_md_fields dict_get_def ex_item_truthy Let_def)

lemma ex_sync_book2: "sync_book ex_env 12 ex_state1 = Inr ex_state1"
  by (simp add: sync_book_def ex_state1_def ex_synced_meta ex_md_unlinked_def dict_get_def
      Let_def)

lemma ex_sync_book3: "sync_book ex_env 13 ex_state1 = Inr ex_final"
  by (simp add: sync_book_def ex_state1_def ex_synced_meta ex_md_missing_def dict_get_def
      ex_env_def ex_final_def ex_entry_missing_def new_entry_def Let_def)

lemma ex_sync_loop: "sync_loop ex_env [11, 12, 13] (init_state ex_library) = Inr ex_final"
  by (simp add: ex_sync_book1 ex_sync_book2 ex_sync_book3)

lemma ex_run:
  "sync_from_audiobookshelf ex_cfg ex_columns ex_items_data ex_me_data ex_library =
     Completed ex_final"
proof -
  have "abs_key ex_cfg \<noteq> [] \<and> abs_library_id ex_cfg \<noteq> []" by (simp add: ex_cfg_def)
  moreover have "ex_items_data \<noteq> PNone \<and> ex_me_data \<noteq> PNone"
    by (simp add: ex_items_data_def ex_me_data_def)
  ultimately show ?thesis
    using ex_sync_loop
    by (simp add: sync_from_audiobookshelf_def ex_items_dict ex_media_progress_dict ex_env_def
        ex_library_fields)
qed

subsection \<open>Applying an update set that changes nothing\<close>

lemma apply_updates_all_equal:
  "\<forall>(k, v) \<in> set kv. py_eq v (md_get m k) \<Longrightarrow> apply_updates kv m ups = (m, ups)"
  by (induction kv arbitrary: m ups) (auto simp: py_ne_def)

text \<open>
  Claim C10. For a record that the store resolves by its uuid, applying an update set
  whose every value equals (Python \<^verbatim>\<open>==\<close>) the record's current value for its key
  returns success with an empty list of updated keys and leaves the store as it was: no
  \<^verbatim>\<open>set_metadata\<close> call is made. Whenever the store is changed by the call, some
  supplied value differs from the current one.
\<close>

theorem update_metadata_unchanged:
  assumes "lookup_by_uuid d book_uuid = Some book_id" and "book_id \<noteq> 0"
  shows "((\<forall>(k, v) \<in> set kv. py_eq v (md_get (get_metadata d book_id) k)) \<longrightarrow>
            update_metadata d book_uuid kv = ((True, Updated [] book_id), d)) \<and>
         (snd (update_metadata d book_uuid kv) \<noteq> d \<longrightarrow>
            (\<exists>(k, v) \<in> set kv. py_ne v (md_get (get_metadata d book_id) k)))"
proof (intro conjI impI)
  assume eq: "\<forall>(k, v) \<in> set kv. py_eq v (md_get (get_metadata d book_id) k)"
  then have "apply_updates kv (get_metadata d book_id) [] = (get_metadata d book_id, [])"
    by (rule apply_updates_all_equal)
  with assms show "update_metadata d book_uuid kv = ((True, Updated [] book_id), d)"
    by (simp add: update_metadata_def)
next
  assume ch: "snd (update_metadata d book_uuid kv) \<noteq> d"
  show "\<exists>(k, v) \<in> set kv. py_ne v (md_get (get_metadata d book_id) k)"
  proof (rule ccontr)
    assume "\<not> (\<exists>(k, v) \<in> set kv. py_ne v (md_get (get_metadata d book_id) k))"
    then have "\<forall>(k, v) \<in> set kv. py_eq v (md_get (get_metadata d book_id) k)"
      by (auto simp: py_ne_def)
    then have "apply_updates kv (get_metadata d book_id) [] = (get_metadata d book_id, [])"
      by (rule apply_updates_all_equal)
    with assms have "snd (update_metadata d book_uuid kv) = d"
      by (simp add: update_metadata_def)
    with ch show False by contradiction
  qed
qed

text \<open>
  On the example library: writing \<open>1\<close> over the stored \<^verbatim>\<open>True\<close> changes nothing
  (\<^verbatim>\<open>1 == True\<close>), writing the progress \<open>0.5\<close> over \<open>0.25\<close> changes the store.
\<close>

theorem update_metadata_unchanged_witness:
  "lookup_by_uuid ex_library ''u1'' = Some 11 \<and> (11::nat) \<noteq> 0 \<and>
   py_eq (PInt 1) (md_get (get_metadata ex_library 11) ''#abs_started'') \<and>
   update_metadata ex_library ''u1'' [(''#abs_started'', PInt 1)] =
     ((True, Updated [] 11), ex_library) \<and>
   snd (update_metadata ex_library ''u1'' [(''#abs_progress'', PFloat (1 / 2))]) \<noteq> ex_library \<and>
   py_ne (PFloat (1 / 2)) (md_get (get_metadata ex_library 11) ''#abs_progress'')"
proof -
  have l: "lookup_by_uuid ex_library ''u1'' = Some 11" by (rule ex_lookup)
  have n: "(11::nat) \<noteq> 0" by simp
  have e: "py_eq (PInt 1) (md_get (get_metadata ex_library 11) ''#abs_started'')"
    by (simp add: md_get_def ex_library_meta ex_md_def)
  have "db_writes (snd (update_metadata ex_library ''u1'' [(''#abs_progress'', PFloat (1 / 2))])) = [11]"
    by (simp add: ex_update ex_synced_def set_metadata_def ex_library_fields)
  then have w: "snd (update_metadata ex_library ''u1'' [(''#abs_progress'', PFloat (1 / 2))]) \<noteq> ex_library"
    using ex_library_fields by auto
  from update_metadata_unchanged [OF l n, of "[(''#abs_started'', PInt 1)]"] e
  have a: "update_metadata ex_library ''u1'' [(''#abs_started'', PInt 1)] =
             ((True, Updated [] 11), ex_library)"
    by simp
  from update_metadata_unchanged [OF l n, of "[(''#abs_progress'', PFloat (1 / 2))]"] w
  have b: "py_ne (PFloat (1 / 2)) (md_get (get_metadata ex_library 11) ''#abs_progress'')"
    by simp
  from l n e a w b show ?thesis by blast
qed

subsection \<open>Counting the records of a run\<close>

lemma apply_updates_frame:
  "md_identifiers (fst (apply_updates kv m ups)) = md_identifiers m \<and>
   md_title (fst (apply_updates kv m ups)) = md_title m"
  by (induction kv arbitrary: m ups) (auto simp: md_set_def Let_def)

lemma update_metadata_frame:
  "md_identifiers (db_meta (snd (update_metadata d u kv)) i) = md_identifiers (db_meta d i) \<and>
   md_title (db_meta (snd (update_metadata d u kv)) i) = md_title (db_meta d i)"
  by (simp add: update_metadata_def set_metadata_def get_metadata_def Let_def
      apply_updates_frame split: option.splits)

lemma sync_column_title:
  "r_title (snd (sync_column cfg m item_data progress_data me_data c acc)) = r_title (snd acc)"
  by (simp add: sync_column_def Let_def)

lemma fold_sync_column_title:
  "r_title (snd (fold (sync_column cfg m item_data progress_data me_data) cols acc)) =
     r_title (snd acc)"
  by (induction cols arbitrary: acc) (simp_all add: sync_column_title)

lemma reconcile_title:
  "r_title (snd (reconcile cfg cols m item_data progress_data me_data)) = md_title m"
  by (simp add: reconcile_def fold_sync_column_title new_entry_def)

lemma sync_book_unlinked:
  "\<not> linked (get_metadata (st_db st) book_id) \<Longrightarrow> sync_book env book_id st = Inr st"
  by (simp add: sync_book_def linked_def Let_def)

lemma sync_book_linked:
  assumes "linked (get_metadata (st_db st) book_id)" and "sync_book env book_id st = Inr st'"
  shows "map r_title (results st') =
           map r_title (results st) @ [md_title (get_metadata (st_db st) book_id)] \<and>
         num_success st' + num_skip st' + num_fail st' =
           num_success st + num_skip st + num_fail st + 1 \<and>
         same_books (st_db st) (st_db st')"
  using assms
  by (auto simp: sync_book_def linked_def Let_def update_metadata_frame reconcile_title
      new_entry_def same_books_def split: if_splits)

lemma sync_loop_counts:
  "sync_loop env ids st = Inr st' \<Longrightarrow>
     map r_title (results st') =
       map r_title (results st) @
       map (\<lambda>i. md_title (get_metadata (st_db st) i))
         (filter (\<lambda>i. linked (get_metadata (st_db st) i)) ids) \<and>
     num_success st' + num_skip st' + num_fail st' + length (results st) =
       num_success st + num_skip st + num_fail st + length (results st') \<and>
     same_books (st_db st) (st_db st')"
proof (induction ids arbitrary: st)
  case Nil
  then show ?case by (simp add: same_books_def)
next
  case (Cons i ids)
  from Cons.prems obtain st1 where s1: "sync_book env i st = Inr st1"
    and l1: "sync_loop env ids st1 = Inr st'"
    by (auto split: sum.splits)
  note IH = Cons.IH [OF l1]
  show ?case
  proof (cases "linked (get_metadata (st_db st) i)")
    case False
    with s1 have "st1 = st" by (simp add: sync_book_unlinked)
    with IH False show ?thesis by simp
  next
    case True
    from sync_book_linked [OF True s1] have
      r: "map r_title (results st1) = map r_title (results st) @ [md_title (get_metadata (st_db st) i)]"
      and t: "num_success st1 + num_skip st1 + num_fail st1 =
                num_success st + num_skip st + num_fail st + 1"
      and sb: "same_books (st_db st) (st_db st1)"
      by blast+
    from sb have same: "linked (get_metadata (st_db st1) j) = linked (get_metadata (st_db st) j)"
      and title: "md_title (get_metadata (st_db st1) j) = md_title (get_metadata (st_db st) j)" for j
      by (simp_all add: linked_def get_metadata_def same_books_def)
    from r have len: "length (results st1) = length (results st) + 1"
      by (metis length_append_singleton length_map Suc_eq_plus1)
    from IH sb have "same_books (st_db st) (st_db st')"
      by (simp add: same_books_def)
    with IH r t len True show ?thesis by (simp add: same title)
  qed
qed

text \<open>
  Claim C5. When a sync run completes, the three counters add up to the number of report
  entries, and the report has exactly one entry for every linked record, in the order of
  the records: a record without a (non-empty) \<^verbatim>\<open>audiobookshelf_id\<close> adds no entry and
  is counted nowhere.
\<close>

theorem sync_report_counts:
  assumes "sync_from_audiobookshelf cfg columns items_data me_data d = Completed st"
  shows "num_success st + num_skip st + num_fail st = length (results st) \<and>
         map r_title (results st) =
           map (\<lambda>i. md_title (get_metadata d i)) (filter (\<lambda>i. linked (get_metadata d i)) (db_ids d))"
proof -
  from assms obtain env where "sync_loop env (db_ids d) (init_state d) = Inr st"
    by (auto simp: sync_from_audiobookshelf_def split: if_splits sum.splits)
  from sync_loop_counts [OF this] show ?thesis
    by (simp add: init_state_def)
qed

text \<open>
  The example run reports the two linked books and leaves out the unlinked one.
\<close>

theorem sync_report_counts_witness:
  "sync_from_audiobookshelf ex_cfg ex_columns ex_items_data ex_me_data ex_library =
     Completed ex_final \<and>
   num_success ex_final + num_skip ex_final + num_fail ex_final = length (results ex_final) \<and>
   length (results ex_final) = 2 \<and>
   map r_title (results ex_final) = [''Dune'', ''Ulysses''] \<and>
   \<not> linked (get_metadata ex_library 12)"
proof -
  note r = sync_report_counts [OF ex_run]
  have "map r_title (results ex_final) = [''Dune'', ''Ulysses'']"
    by (simp add: ex_final_def ex_entry_updated_def ex_entry_missing_def)
  moreover have "\<not> linked (get_metadata ex_library 12)"
    by (simp add: linked_def ex_library_meta ex_md_unlinked_def dict_get_def)
  moreover have "length (results ex_final) = 2"
    by (simp add: ex_final_def)
  ultimately show ?thesis using r ex_run by simp
qed

subsection \<open>A linked record whose item is not in the fetch\<close>

text \<open>
  Claim C8. When the \<^verbatim>\<open>audiobookshelf_id\<close> of a record is not a key of the item index
  of the current fetch, the loop appends an entry with the error text
  \<^verbatim>\<open>Audiobookshelf item not found\<close>, adds one to the skipped counter, leaves the failed
  counter and the store as they are, and goes on with the remaining records.
\<close>

theorem sync_item_not_found:
  assumes "abs_id = dict_get (md_identifiers (get_metadata (st_db st) book_id)) ''audiobookshelf_id''"
    and "truthy abs_id" and "hashable abs_id"
    and "pd_get (env_items_dict env) abs_id = None"
  shows "sync_loop env (book_id # ids) st =
           sync_loop env ids
             (st\<lparr>results := results st @
                   [(new_entry (md_title (get_metadata (st_db st) book_id)))
                      \<lparr>r_error := Some ''Audiobookshelf item not found''\<rparr>],
                 num_skip := num_skip st + 1\<rparr>)"
  using assms by (simp add: sync_book_def Let_def)

text \<open>
  In the example run the third book is linked to \<^verbatim>\<open>li_9\<close>, which the server does not
  list.
\<close>

theorem sync_item_not_found_witness:
  "dict_get (md_identifiers (get_metadata (st_db ex_state1) 13)) ''audiobookshelf_id'' = PStr ''li_9'' \<and>
   truthy (PStr ''li_9'') \<and> hashable (PStr ''li_9'') \<and>
   pd_get (env_items_dict ex_env) (PStr ''li_9'') = None \<and>
   sync_loop ex_env [13] ex_state1 = Inr ex_final \<and>
   num_skip ex_final = num_skip ex_state1 + 1 \<and> num_fail ex_final = num_fail ex_state1 \<and>
   results ex_final = results ex_state1 @ [ex_entry_missing]"
proof -
  have a: "PStr ''li_9'' = dict_get (md_identifiers (get_metadata (st_db ex_state1) 13)) ''audiobookshelf_id''"
    by (simp add: ex_state1_def ex_synced_meta ex_md_missing_def dict_get_def)
  have t: "truthy (PStr ''li_9'')" and h: "hashable (PStr ''li_9'')" by simp_all
  have n: "pd_get (env_items_dict ex_env) (PStr ''li_9'') = None"
    by (simp add: ex_env_def)
  have "sync_loop ex_env [13] ex_state1 = Inr ex_final"
    using sync_item_not_found [OF a t h n, of "[]"]
    by (simp add: ex_state1_def ex_final_def ex_synced_meta ex_md_missing_def new_entry_def
        ex_entry_missing_def)
  moreover have "num_skip ex_final = num_skip ex_state1 + 1 \<and> num_fail ex_final = num_fail ex_state1 \<and>
     results ex_final = results ex_state1 @ [ex_entry_missing]"
    by (simp add: ex_final_def ex_state1_def)
  ultimately show ?thesis using a t h n by simp
qed

subsection \<open>The update set of one record\<close>

lemma sync_column_fst:
  "fst (sync_column cfg m item_data progress_data me_data c acc) =
     (if writes_field cfg m item_data progress_data me_data c
      then AList.update (config_get cfg (fst c))
             (computed_value (snd c) item_data progress_data me_data) (fst acc)
      else fst acc)"
  by (simp add: sync_column_def writes_field_def Let_def)

lemma fold_sync_column_lookup:
  "map_of (fst (fold (sync_column cfg m item_data progress_data me_data) cs acc)) k = Some v \<Longrightarrow>
     map_of (fst acc) k = Some v \<or>
     (\<exists>c \<in> set cs. writes_field cfg m item_data progress_data me_data c \<and>
        config_get cfg (fst c) = k \<and> computed_value (snd c) item_data progress_data me_data = v)"
proof (induction cs arbitrary: acc)
  case Nil
  then show ?case by simp
next
  case (Cons c cs)
  from Cons.prems have
    "map_of (fst (fold (sync_column cfg m item_data progress_data me_data) cs
        (sync_column cfg m item_data progress_data me_data c acc))) k = Some v"
    by simp
  from Cons.IH [OF this] show ?case
    by (auto simp: sync_column_fst update_conv' split: if_splits)
qed

lemma fold_sync_column_dom:
  "k \<in> fst ` set (fst (fold (sync_column cfg m item_data progress_data me_data) cs acc)) \<longleftrightarrow>
     k \<in> fst ` set (fst acc) \<or>
     (\<exists>c \<in> set cs. writes_field cfg m item_data progress_data me_data c \<and>
        config_get cfg (fst c) = k)"
proof (induction cs arbitrary: acc)
  case Nil
  then show ?case by simp
next
  case (Cons c cs)
  show ?case
    by (auto simp: Cons.IH sync_column_fst dom_update)
qed

lemma fold_sync_column_idle:
  "\<forall>c \<in> set cs. \<not> writes_field cfg m item_data progress_data me_data c \<Longrightarrow>
     fst (fold (sync_column cfg m item_data progress_data me_data) cs acc) = fst acc"
  by (induction cs arbitrary: acc) (simp_all add: sync_column_fst)


lemma update_set_lookup:
  assumes "map_of (update_set cfg cols m item_data progress_data me_data) k = Some v"
  shows "\<exists>c \<in> set cols. writes_field cfg m item_data progress_data me_data c \<and>
           config_get cfg (fst c) = k \<and> computed_value (snd c) item_data progress_data me_data = v"
  using fold_sync_column_lookup [of cfg m item_data progress_data me_data cols
      "([], new_entry (md_title m))" k v] assms
  by (simp add: update_set_def reconcile_def)

lemma update_set_dom:
  "k \<in> fst ` set (update_set cfg cols m item_data progress_data me_data) \<longleftrightarrow>
     (\<exists>c \<in> set cols. writes_field cfg m item_data progress_data me_data c \<and>
        config_get cfg (fst c) = k)"
  using fold_sync_column_dom [of k cfg m item_data progress_data me_data cols
      "([], new_entry (md_title m))"]
  by (simp add: update_set_def reconcile_def)

text \<open>
  Claim C2, as amended. Every key of the update set carries the freshly computed value of
  a configured field bound to that key, and that value is not \<^verbatim>\<open>None\<close> and differs
  from the record's current value for the key. For a configured field whose destination
  column no other entry of the table shares, the key is in the update set exactly when
  the field's computed value is not \<^verbatim>\<open>None\<close> and differs from the current value.
\<close>

theorem update_set_entries:
  "(\<forall>k v. map_of (update_set cfg cols m item_data progress_data me_data) k = Some v \<longrightarrow>
      v \<noteq> PNone \<and> py_ne (md_get m k) v \<and>
      (\<exists>c \<in> set cols. config_get cfg (fst c) = k \<and>
         computed_value (snd c) item_data progress_data me_data = v)) \<and>
   (\<forall>c \<in> set cols.
      config_get cfg (fst c) \<noteq> [] \<longrightarrow>
      (\<forall>c' \<in> set cols. config_get cfg (fst c') = config_get cfg (fst c) \<longrightarrow> c' = c) \<longrightarrow>
      (config_get cfg (fst c) \<in> fst ` set (update_set cfg cols m item_data progress_data me_data) \<longleftrightarrow>
         computed_value (snd c) item_data progress_data me_data \<noteq> PNone \<and>
         py_ne (md_get m (config_get cfg (fst c)))
           (computed_value (snd c) item_data progress_data me_data)))"
proof (intro conjI allI impI ballI)
  fix k v
  assume "map_of (update_set cfg cols m item_data progress_data me_data) k = Some v"
  from update_set_lookup [OF this] obtain c where c: "c \<in> set cols"
    and w: "writes_field cfg m item_data progress_data me_data c"
    and k: "config_get cfg (fst c) = k"
    and v: "computed_value (snd c) item_data progress_data me_data = v"
    by blast
  from w k v show "v \<noteq> PNone" and "py_ne (md_get m k) v"
    by (simp_all add: writes_field_def)
  from c k v show "\<exists>c \<in> set cols. config_get cfg (fst c) = k \<and>
      computed_value (snd c) item_data progress_data me_data = v"
    by blast
next
  fix c
  assume c: "c \<in> set cols" and ne: "config_get cfg (fst c) \<noteq> []"
    and uniq: "\<forall>c' \<in> set cols. config_get cfg (fst c') = config_get cfg (fst c) \<longrightarrow> c' = c"
  have "config_get cfg (fst c) \<in> fst ` set (update_set cfg cols m item_data progress_data me_data) \<longleftrightarrow>
      writes_field cfg m item_data progress_data me_data c"
    using c uniq by (auto simp: update_set_dom)
  with ne show "config_get cfg (fst c) \<in> fst ` set (update_set cfg cols m item_data progress_data me_data) \<longleftrightarrow>
      computed_value (snd c) item_data progress_data me_data \<noteq> PNone \<and>
      py_ne (md_get m (config_get cfg (fst c)))
        (computed_value (snd c) item_data progress_data me_data)"
    by (simp add: writes_field_def)
qed

lemma ex_shared_update_set:
  "update_set ex_shared_cfg ex_shared_columns ex_md_shared ex_shared_item (PDict []) PNone =
     [(''#abs_info'', PInt 5)]"
  by (simp add: update_set_def reconcile_def ex_shared_columns_def sync_column_def
      ex_shared_cfg_def config_get_def computed_value_def extract_value_def ex_size_col_def
      ex_files_col_def ex_shared_item_def dict_get_def md_get_def ex_md_shared_def py_ne_def
      Let_def)

text \<open>
  Claim C2 as first stated, for every configured field, fails when two fields share a
  destination column: the number of files is computed as \<open>3\<close>, which is the current
  value of \<^verbatim>\<open>#abs_info\<close>, and yet the key is in the update set, put there by the size.
\<close>

theorem update_set_shared_column_counterexample:
  "config_get ex_shared_cfg ''column_audiobook_numfiles'' = ''#abs_info'' \<and>
   computed_value ex_files_col ex_shared_item (PDict []) PNone = PInt 3 \<and>
   md_get ex_md_shared ''#abs_info'' = PInt 3 \<and>
   \<not> py_ne (md_get ex_md_shared ''#abs_info'') (PInt 3) \<and>
   ''#abs_info'' \<in> fst ` set (update_set ex_shared_cfg ex_shared_columns ex_md_shared
      ex_shared_item (PDict []) PNone)"
  by (simp add: ex_shared_update_set)
    (simp add: ex_shared_cfg_def config_get_def computed_value_def extract_value_def
      ex_files_col_def ex_shared_item_def dict_get_def md_get_def ex_md_shared_def py_ne_def)

lemma ex_update_set:
  "update_set ex_cfg ex_columns ex_md ex_item ex_prog ex_me_data = [(''#abs_progress'', PFloat (1 / 2))]"
  by (simp add: update_set_def ex_reconcile)

text \<open>
  In the example run the progress \<open>0.5\<close> is not \<^verbatim>\<open>None\<close> and differs from the stored
  \<open>0.25\<close>, and the key of the column is in the update set.
\<close>

theorem update_set_entries_witness:
  "map_of (update_set ex_cfg ex_columns ex_md ex_item ex_prog ex_me_data) ''#abs_progress'' =
     Some (PFloat (1 / 2)) \<and>
   PFloat (1 / 2) \<noteq> PNone \<and>
   py_ne (md_get ex_md ''#abs_progress'') (PFloat (1 / 2)) \<and>
   ''#abs_progress'' \<in> fst ` set (update_set ex_cfg ex_columns ex_md ex_item ex_prog ex_me_data) \<and>
   computed_value (snd (hd ex_columns)) ex_item ex_prog ex_me_data = PFloat (1 / 2)"
proof -
  note t = update_set_entries [of ex_cfg ex_columns ex_md ex_item ex_prog ex_me_data]
  have l: "map_of (update_set ex_cfg ex_columns ex_md ex_item ex_prog ex_me_data) ''#abs_progress'' =
     Some (PFloat (1 / 2))"
    by (simp add: ex_update_set)
  with t have a: "PFloat (1 / 2) \<noteq> PNone \<and> py_ne (md_get ex_md ''#abs_progress'') (PFloat (1 / 2))"
    by blast
  have c: "computed_value (snd (hd ex_columns)) ex_item ex_prog ex_me_data = PFloat (1 / 2)"
    by (simp add: ex_columns_def computed_value_def extract_value_def ex_prog_def dict_get_def)
  have k: "config_get ex_cfg (fst (hd ex_columns)) = ''#abs_progress''"
    by (simp add: ex_columns_def ex_cfg_def config_get_def)
  have h: "hd ex_columns \<in> set ex_columns" "\<forall>c' \<in> set ex_columns.
      config_get ex_cfg (fst c') = config_get ex_cfg (fst (hd ex_columns)) \<longrightarrow> c' = hd ex_columns"
    by (simp_all add: ex_columns_def)
  from t have "\<forall>c \<in> set ex_columns.
      config_get ex_cfg (fst c) \<noteq> [] \<longrightarrow>
      (\<forall>c' \<in> set ex_columns. config_get ex_cfg (fst c') = config_get ex_cfg (fst c) \<longrightarrow> c' = c) \<longrightarrow>
      (config_get ex_cfg (fst c) \<in> fst ` set (update_set ex_cfg ex_columns ex_md ex_item ex_prog ex_me_data) \<longleftrightarrow>
         computed_value (snd c) ex_item ex_prog ex_me_data \<noteq> PNone \<and>
         py_ne (md_get ex_md (config_get ex_cfg (fst c)))
           (computed_value (snd c) ex_item ex_prog ex_me_data))"
    by (rule conjunct2)
  from bspec [OF this h(1)] h(2) k a c
  have "''#abs_progress'' \<in> fst ` set (update_set ex_cfg ex_columns ex_md ex_item ex_prog ex_me_data)"
    by simp
  with l a c show ?thesis by simp
qed

subsection \<open>Reconciling twice\<close>

lemma distinct_fold_sync_column:
  "distinct (map fst (fst acc)) \<Longrightarrow>
     distinct (map fst (fst (fold (sync_column cfg m item_data progress_data me_data) cs acc)))"
  by (induction cs arbitrary: acc) (simp_all add: sync_column_fst distinct_update)

lemma distinct_update_set:
  "distinct (map fst (update_set cfg cols m item_data progress_data me_data))"
  by (simp add: update_set_def reconcile_def distinct_fold_sync_column)

lemma apply_updates_length: "length ups \<le> length (snd (apply_updates kv m ups))"
proof (induction kv arbitrary: m ups)
  case Nil
  then show ?case by simp
next
  case (Cons p kv)
  obtain k v where p: "p = (k, v)" by (cases p)
  from Cons [of "ups @ [k]" "md_set m k v"] Cons [of ups m] p show ?case
    by (simp add: Let_def; linarith)
qed

lemma apply_updates_no_write:
  "snd (apply_updates kv m ups) = ups \<Longrightarrow> fst (apply_updates kv m ups) = m"
proof (induction kv arbitrary: m ups)
  case Nil
  then show ?case by simp
next
  case (Cons p kv)
  obtain k v where p: "p = (k, v)" by (cases p)
  show ?case
  proof (cases "py_ne v (md_get m k)")
    case True
    from apply_updates_length [of "ups @ [k]" kv "md_set m k v"] Cons.prems p True
    show ?thesis by simp
  next
    case False
    with Cons p show ?thesis by simp
  qed
qed

lemma apply_updates_md_get:
  "distinct (map fst kv) \<Longrightarrow>
     md_get (fst (apply_updates kv m ups)) k =
       (case map_of kv k of
          None \<Rightarrow> md_get m k
        | Some v \<Rightarrow> if py_ne v (md_get m k) then v else md_get m k)"
proof (induction kv arbitrary: m ups)
  case Nil
  then show ?case by simp
next
  case (Cons p kv)
  obtain key nv where p: "p = (key, nv)" by (cases p)
  from Cons.prems p have d: "distinct (map fst kv)" and nk: "map_of kv key = None"
    by (auto simp: map_of_eq_None_iff)
  show ?case
  proof (cases "py_ne nv (md_get m key)")
    case True
    have "md_get (md_set m key nv) k = (if k = key then nv else md_get m k)"
      by (simp add: md_get_def md_set_def)
    with Cons.IH [OF d, of "md_set m key nv" "ups @ [key]"] True p nk show ?thesis
      by (auto split: option.splits)
  next
    case False
    with Cons.IH [OF d, of m ups] p nk show ?thesis
      by (auto split: option.splits)
  qed
qed

lemma update_metadata_resolved:
  assumes "lookup_by_uuid d u = Some book_id" and "book_id \<noteq> 0"
  shows "fst (fst (update_metadata d u kv))"
    and "get_metadata (snd (update_metadata d u kv)) book_id =
           fst (apply_updates kv (get_metadata d book_id) [])"
proof -
  from assms show "fst (fst (update_metadata d u kv))"
    by (simp add: update_metadata_def Let_def)
  show "get_metadata (snd (update_metadata d u kv)) book_id =
           fst (apply_updates kv (get_metadata d book_id) [])"
  proof (cases "snd (apply_updates kv (get_metadata d book_id) []) = []")
    case True
    then have "fst (apply_updates kv (get_metadata d book_id) []) = get_metadata d book_id"
      by (rule apply_updates_no_write)
    with True assms show ?thesis by (simp add: update_metadata_def Let_def)
  next
    case False
    with assms show ?thesis
      by (simp add: update_metadata_def Let_def set_metadata_def get_metadata_def)
  qed
qed

text \<open>
  Claim C6, as amended. Let the configured fields have pairwise different destination
  columns, and let the store resolve the record by its own uuid. Then applying the
  update set computed for the record succeeds, and a second pass over the stored record,
  with the same remote item, progress record, user-profile payload and configuration,
  computes the empty update set.
\<close>

theorem reconcile_idempotent:
  assumes dest: "\<forall>c \<in> set cols. \<forall>c' \<in> set cols.
        config_get cfg (fst c) = config_get cfg (fst c') \<longrightarrow> config_get cfg (fst c) \<noteq> [] \<longrightarrow> c = c'"
    and m: "get_metadata d book_id = m"
    and res: "lookup_by_uuid d (md_uuid m) = Some book_id" "book_id \<noteq> 0"
    and kv: "kv = update_set cfg cols m item_data progress_data me_data"
  shows "fst (fst (update_metadata d (md_uuid m) kv)) \<and>
         update_set cfg cols (get_metadata (snd (update_metadata d (md_uuid m) kv)) book_id)
           item_data progress_data me_data = []"
proof
  from res show "fst (fst (update_metadata d (md_uuid m) kv))"
    by (rule update_metadata_resolved)
  define m' where "m' = get_metadata (snd (update_metadata d (md_uuid m) kv)) book_id"
  from res m have m': "m' = fst (apply_updates kv m [])"
    unfolding m'_def by (simp add: update_metadata_resolved)
  have get: "md_get m' k =
      (case map_of kv k of None \<Rightarrow> md_get m k
       | Some v \<Rightarrow> if py_ne v (md_get m k) then v else md_get m k)" for k
    unfolding m' kv by (rule apply_updates_md_get) (rule distinct_update_set)
  have idle: "\<not> writes_field cfg m' item_data progress_data me_data c" if c: "c \<in> set cols" for c
  proof
    assume w': "writes_field cfg m' item_data progress_data me_data c"
    define k where "k = config_get cfg (fst c)"
    define v where "v = computed_value (snd c) item_data progress_data me_data"
    from w' have k: "k \<noteq> []" and v: "v \<noteq> PNone" and ne': "py_ne (md_get m' k) v"
      by (simp_all add: writes_field_def k_def v_def)
    show False
    proof (cases "writes_field cfg m item_data progress_data me_data c")
      case True
      then have ne: "py_ne (md_get m k) v" by (simp add: writes_field_def k_def v_def)
      from True c have "k \<in> fst ` set kv"
        unfolding kv update_set_dom k_def by blast
      then obtain v'' where look: "map_of kv k = Some v''"
        by (metis map_of_in_keys set_map)
      then obtain c' where "c' \<in> set cols" "config_get cfg (fst c') = k"
        "computed_value (snd c') item_data progress_data me_data = v''"
        unfolding kv using update_set_lookup by blast
      with dest c k have "v'' = v" unfolding k_def v_def by metis
      with look ne get [of k] have "md_get m' k = v"
        by (simp add: py_ne_def py_eq_sym)
      with ne' show False by (simp add: py_ne_def py_eq_refl)
    next
      case False
      with k v have eq: "\<not> py_ne (md_get m k) v" by (simp add: writes_field_def k_def v_def)
      have "map_of kv k = None"
      proof (cases "map_of kv k")
        case (Some v'')
        then obtain c' where c': "c' \<in> set cols" "config_get cfg (fst c') = k"
          "writes_field cfg m item_data progress_data me_data c'"
          unfolding kv using update_set_lookup by blast
        with dest c k have "c' = c" unfolding k_def by metis
        with c' False show ?thesis by simp
      qed simp
      with get [of k] have "md_get m' k = md_get m k" by simp
      with ne' eq show False by simp
    qed
  qed
  then have "fst (fold (sync_column cfg m' item_data progress_data me_data) cols
      ([], new_entry (md_title m'))) = fst ([], new_entry (md_title m'))"
    by (intro fold_sync_column_idle) blast
  then show "update_set cfg cols (get_metadata (snd (update_metadata d (md_uuid m) kv)) book_id)
      item_data progress_data me_data = []"
    by (simp add: update_set_def reconcile_def m'_def)
qed

subsection \<open>The default of the started flag\<close>

text \<open>
  Claim C1, as amended. For the field headed \<^verbatim>\<open>Audiobook Started\<close> read from
  \<^verbatim>\<open>mediaProgress\<close>, an extraction that yields \<^verbatim>\<open>None\<close> is replaced by
  \<^verbatim>\<open>True\<close>, whether or not the fetch holds a progress record for the item: without a
  record the extraction runs on the empty dictionary, every non-empty path yields
  \<^verbatim>\<open>None\<close> there, and the default applies all the same; the value then goes through
  the transform like any other.
\<close>

theorem started_default:
  assumes "api_source cm = ''mediaProgress''" and "column_heading cm = ''Audiobook Started''"
  shows "(get_nested_value progress_data (data_location cm) = PNone \<longrightarrow>
            extract_value cm item_data progress_data me_data = PBool True) \<and>
         (pd_get media_progress_dict abs_id = None \<longrightarrow> data_location cm \<noteq> [] \<longrightarrow>
            extract_value cm item_data (progress_for media_progress_dict abs_id) me_data = PBool True \<and>
            computed_value cm item_data (progress_for media_progress_dict abs_id) me_data =
              (case transform cm of None \<Rightarrow> PBool True | Some f \<Rightarrow> f (PBool True)))"
proof (intro conjI impI)
  assume "get_nested_value progress_data (data_location cm) = PNone"
  with assms show "extract_value cm item_data progress_data me_data = PBool True"
    by (simp add: extract_value_def)
next
  assume none: "pd_get media_progress_dict abs_id = None" and path: "data_location cm \<noteq> []"
  from path obtain key rest where "data_location cm = key # rest"
    by (cases "data_location cm") auto
  moreover have "get_nested_value PNone rest = PNone"
    by (cases rest) simp_all
  ultimately have "get_nested_value (PDict []) (data_location cm) = PNone"
    by (simp add: dict_get_def)
  with assms none
  show e: "extract_value cm item_data (progress_for media_progress_dict abs_id) me_data = PBool True"
    by (simp add: extract_value_def progress_for_def)
  then show "computed_value cm item_data (progress_for media_progress_dict abs_id) me_data =
      (case transform cm of None \<Rightarrow> PBool True | Some f \<Rightarrow> f (PBool True))"
    by (simp add: computed_value_def Let_def)
qed

lemma ex_started_col_fields:
  "api_source ex_started_col = ''mediaProgress''"
  "column_heading ex_started_col = ''Audiobook Started''"
  "data_location ex_started_col = [''isStarted'']"
  "transform ex_started_col = None"
  by (simp_all add: ex_started_col_def)

text \<open>
  With a progress record that lacks the key, and with no progress record at all, the
  started flag is extracted as \<^verbatim>\<open>True\<close>.
\<close>

theorem started_default_witness:
  "api_source ex_started_col = ''mediaProgress'' \<and>
   column_heading ex_started_col = ''Audiobook Started'' \<and>
   get_nested_value ex_prog (data_location ex_started_col) = PNone \<and>
   extract_value ex_started_col ex_item ex_prog ex_me_data = PBool True \<and>
   pd_get ([] :: (pyval \<times> pyval) list) (PStr ''li_1'') = None \<and>
   data_location ex_started_col \<noteq> [] \<and>
   extract_value ex_started_col ex_item (progress_for [] (PStr ''li_1'')) ex_me_empty = PBool True \<and>
   computed_value ex_started_col ex_item (progress_for [] (PStr ''li_1'')) ex_me_empty = PBool True"
proof -
  note t = started_default [OF ex_started_col_fields(1) ex_started_col_fields(2)]
  have g: "get_nested_value ex_prog (data_location ex_started_col) = PNone"
    by (simp add: ex_started_col_fields ex_prog_def dict_get_def)
  have n: "pd_get ([] :: (pyval \<times> pyval) list) (PStr ''li_1'') = None" by simp
  have p: "data_location ex_started_col \<noteq> []" by (simp add: ex_started_col_fields)
  from t [where progress_data = ex_prog and item_data = ex_item and me_data = ex_me_data] g
  have a: "extract_value ex_started_col ex_item ex_prog ex_me_data = PBool True" by blast
  from t [where media_progress_dict = "[]" and abs_id = "PStr ''li_1''" and item_data = ex_item
      and me_data = ex_me_empty] n p
  have b: "extract_value ex_started_col ex_item (progress_for [] (PStr ''li_1'')) ex_me_empty = PBool True \<and>
    computed_value ex_started_col ex_item (progress_for [] (PStr ''li_1'')) ex_me_empty = PBool True"
    by (simp add: ex_started_col_fields)
  from g n p a b show ?thesis by (simp add: ex_started_col_fields)
qed

lemma ex_started_reconcile:
  "reconcile ex_started_cfg ex_started_columns ex_md_new ex_item (PDict []) ex_me_empty =
     ([(''#abs_started'', PBool True)],
      \<lparr>r_title = ''Dune'', r_changes = [(''Audiobook Started'', PNone, PBool True)],
       r_linked = None, r_error = None\<rparr>)"
  by (simp add: reconcile_def ex_started_columns_def sync_column_def ex_started_cfg_def
      config_get_def computed_value_def extract_value_def ex_started_col_def dict_get_def
      md_get_def ex_md_new_def py_ne_def new_entry_def Let_def)

lemma ex_started_update:
  "update_metadata ex_new_library ''u4'' [(''#abs_started'', PBool True)] =
     ((True, Updated [''#abs_started''] 21),
      set_metadata ex_new_library 21 (md_set ex_md_new ''#abs_started'' (PBool True)))"
  by (simp add: update_metadata_def lookup_by_uuid_def ex_new_library_def get_metadata_def
      ex_md_new_def md_get_def py_ne_def Let_def)

lemma ex_md_new_fields:
  "md_uuid ex_md_new = ''u4''"
  "md_title ex_md_new = ''Dune''"
  "md_identifiers ex_md_new = [(''audiobookshelf_id'', PStr ''li_1'')]"
  by (simp_all add: ex_md_new_def)

text \<open>
  The claim as first stated fails: a run over a profile with an empty progress list, so
  with no progress record for \<^verbatim>\<open>li_1\<close>, still writes \<^verbatim>\<open>True\<close> into the column of
  the started flag.
\<close>

theorem started_without_progress_counterexample:
  "build_media_progress_dict ex_me_empty = Inr [] \<and>
   sync_from_audiobookshelf ex_started_cfg ex_started_columns ex_items_data ex_me_empty
     ex_new_library = Completed ex_started_final \<and>
   md_get (get_metadata (st_db ex_started_final) 21) ''#abs_started'' = PBool True"
proof -
  have mp: "build_media_progress_dict ex_me_empty = Inr []"
    by (simp add: build_media_progress_dict_def ex_me_empty_def py_get_def)
  have c: "abs_key ex_started_cfg \<noteq> [] \<and> abs_library_id ex_started_cfg \<noteq> []"
    by (simp add: ex_started_cfg_def)
  have p: "ex_items_data \<noteq> PNone \<and> ex_me_empty \<noteq> PNone"
    by (simp add: ex_items_data_def ex_me_empty_def)
  have ids: "db_ids ex_new_library = [21]" and meta: "get_metadata ex_new_library 21 = ex_md_new"
    by (simp_all add: ex_new_library_def get_metadata_def)
  have "sync_book
      \<lparr>env_config = ex_started_cfg, env_columns = ex_started_columns,
       env_items_dict = [(PStr ''li_1'', ex_item)], env_media_progress_dict = [],
       env_me_data = ex_me_empty\<rparr> 21 (init_state ex_new_library) = Inr ex_started_final"
    by (simp add: sync_book_def init_state_def meta ex_md_new_fields dict_get_def ex_item_truthy
        progress_for_def ex_started_reconcile ex_started_update ex_started_final_def Let_def)
  with mp c p ids have run: "sync_from_audiobookshelf ex_started_cfg ex_started_columns ex_items_data
      ex_me_empty ex_new_library = Completed ex_started_final"
    by (simp add: sync_from_audiobookshelf_def ex_items_dict)
  have "md_get (get_metadata (st_db ex_started_final) 21) ''#abs_started'' = PBool True"
    by (simp add: ex_started_final_def set_metadata_def get_metadata_def md_get_def md_set_def)
  with mp run show ?thesis by simp
qed

lemma ex_shared_update:
  "update_metadata ex_shared_library ''u5'' [(''#abs_info'', PInt 5)] =
     ((True, Updated [''#abs_info''] 31),
      set_metadata ex_shared_library 31 (md_set ex_md_shared ''#abs_info'' (PInt 5)))"
  by (simp add: update_metadata_def lookup_by_uuid_def ex_shared_library_def get_metadata_def
      ex_md_shared_def md_get_def py_ne_def Let_def)

text \<open>
  Claim C6 as first stated fails when two fields share a destination column: the first
  pass writes the size \<open>5\<close> over the \<open>3\<close>, and the second pass, on unchanged remote
  data, finds the number of files \<open>3\<close> different from the stored \<open>5\<close> and computes a
  non-empty update set.
\<close>

theorem reconcile_shared_column_counterexample:
  "update_set ex_shared_cfg ex_shared_columns (get_metadata ex_shared_library 31) ex_shared_item
     (PDict []) PNone = [(''#abs_info'', PInt 5)] \<and>
   fst (fst (update_metadata ex_shared_library ''u5'' [(''#abs_info'', PInt 5)])) \<and>
   update_set ex_shared_cfg ex_shared_columns
     (get_metadata (snd (update_metadata ex_shared_library ''u5'' [(''#abs_info'', PInt 5)])) 31)
     ex_shared_item (PDict []) PNone = [(''#abs_info'', PInt 3)]"
proof -
  have m: "get_metadata ex_shared_library 31 = ex_md_shared"
    by (simp add: get_metadata_def ex_shared_library_def)
  have m': "get_metadata (set_metadata ex_shared_library 31 (md_set ex_md_shared ''#abs_info'' (PInt 5))) 31 =
      md_set ex_md_shared ''#abs_info'' (PInt 5)"
    by (simp add: get_metadata_def set_metadata_def)
  have "update_set ex_shared_cfg ex_shared_columns (md_set ex_md_shared ''#abs_info'' (PInt 5))
      ex_shared_item (PDict []) PNone = [(''#abs_info'', PInt 3)]"
    by (simp add: update_set_def reconcile_def ex_shared_columns_def sync_column_def
      ex_shared_cfg_def config_get_def computed_value_def extract_value_def ex_size_col_def
      ex_files_col_def ex_shared_item_def dict_get_def md_get_def md_set_def ex_md_shared_def
      py_ne_def Let_def)
  then show ?thesis
    by (simp add: m m' ex_shared_update_set ex_shared_update)
qed

text \<open>
  In the example run the first pass updates the progress and a second pass finds nothing
  to update.
\<close>

theorem reconcile_idempotent_witness:
  "get_metadata ex_library 11 = ex_md \<and>
   lookup_by_uuid ex_library (md_uuid ex_md) = Some 11 \<and> (11::nat) \<noteq> 0 \<and>
   update_set ex_cfg ex_columns ex_md ex_item ex_prog ex_me_data = [(''#abs_progress'', PFloat (1 / 2))] \<and>
   fst (fst (update_metadata ex_library (md_uuid ex_md) [(''#abs_progress'', PFloat (1 / 2))])) \<and>
   update_set ex_cfg ex_columns
     (get_metadata (snd (update_metadata ex_library (md_uuid ex_md) [(''#abs_progress'', PFloat (1 / 2))])) 11)
     ex_item ex_prog ex_me_data = []"
proof -
  have dest: "\<forall>c \<in> set ex_columns. \<forall>c' \<in> set ex_columns.
      config_get ex_cfg (fst c) = config_get ex_cfg (fst c') \<longrightarrow> config_get ex_cfg (fst c) \<noteq> [] \<longrightarrow> c = c'"
    by (simp add: ex_columns_def)
  have m: "get_metadata ex_library 11 = ex_md" by (rule ex_library_meta)
  have l: "lookup_by_uuid ex_library (md_uuid ex_md) = Some 11"
    by (simp add: ex_md_fields ex_lookup)
  have n: "(11::nat) \<noteq> 0" by simp
  have kv: "[(''#abs_progress'', PFloat (1 / 2))] =
      update_set ex_cfg ex_columns ex_md ex_item ex_prog ex_me_data"
    by (simp add: ex_update_set)
  from reconcile_idempotent [OF dest m l n kv] m l n kv show ?thesis by simp
qed

subsection \<open>Nested-value extraction\<close>

lemma get_nested_value_None: "get_nested_value PNone path = PNone"
  by (cases path) simp_all

lemma get_nested_value_not_dict:
  "\<forall>d. data \<noteq> PDict d \<Longrightarrow> path \<noteq> [] \<Longrightarrow> get_nested_value data path = PNone"
  by (cases path; cases data) simp_all

lemma get_nested_value_append:
  "get_nested_value data (p @ q) = get_nested_value (get_nested_value data p) q"
proof (induction p arbitrary: data)
  case Nil
  then show ?case by simp
next
  case (Cons key p)
  show ?case
  proof (cases data)
    case (PDict d)
    with Cons show ?thesis by simp
  qed (simp_all add: get_nested_value_None)
qed

lemma sync_column_null:
  "computed_value (snd c) item_data progress_data me_data = PNone \<Longrightarrow>
     sync_column cfg m item_data progress_data me_data c acc = acc"
  by (simp add: sync_column_def Let_def)

text \<open>
  Claim C7, as amended. The extraction is a function on all values and paths, with no
  error result: the empty path returns the value itself, a dictionary is looked up at the
  first key and the rest of the path is followed from the result, so following \<open>p @ q\<close>
  is following \<open>p\<close> and then \<open>q\<close>; and as soon as an intermediate result is not a
  dictionary (\<^verbatim>\<open>None\<close> for an absent key, or any other value) while keys remain, the
  result is \<^verbatim>\<open>None\<close>. A field whose extraction yields \<^verbatim>\<open>None\<close> adds nothing to the
  update set, nor to the report entry, except the field headed
  \<^verbatim>\<open>Audiobook Started\<close> read from \<^verbatim>\<open>mediaProgress\<close>.
\<close>

theorem nested_value_null_excluded:
  "get_nested_value data [] = data \<and>
   get_nested_value (PDict d) (key # path) = get_nested_value (dict_get d key) path \<and>
   get_nested_value data (p @ q) = get_nested_value (get_nested_value data p) q \<and>
   (q \<noteq> [] \<longrightarrow> (\<forall>d'. get_nested_value data p \<noteq> PDict d') \<longrightarrow>
      get_nested_value data (p @ q) = PNone) \<and>
   (api_source cm = ''lib_items'' \<longrightarrow> get_nested_value item_data (data_location cm) = PNone \<longrightarrow>
      sync_column cfg m item_data progress_data me_data (config_name, cm) acc = acc) \<and>
   (api_source cm = ''me'' \<longrightarrow> get_nested_value me_data (data_location cm) = PNone \<longrightarrow>
      sync_column cfg m item_data progress_data me_data (config_name, cm) acc = acc) \<and>
   (api_source cm = ''mediaProgress'' \<longrightarrow> column_heading cm \<noteq> ''Audiobook Started'' \<longrightarrow>
      get_nested_value progress_data (data_location cm) = PNone \<longrightarrow>
      sync_column cfg m item_data progress_data me_data (config_name, cm) acc = acc)"
proof (intro conjI impI)
  show "get_nested_value data [] = data" by simp
  show "get_nested_value (PDict d) (key # path) = get_nested_value (dict_get d key) path" by simp
  show "get_nested_value data (p @ q) = get_nested_value (get_nested_value data p) q"
    by (rule get_nested_value_append)
next
  assume "q \<noteq> []" and "\<forall>d'. get_nested_value data p \<noteq> PDict d'"
  then have "get_nested_value (get_nested_value data p) q = PNone"
    by (simp add: get_nested_value_not_dict)
  then show "get_nested_value data (p @ q) = PNone"
    by (simp add: get_nested_value_append)
next
  assume "api_source cm = ''lib_items''" and "get_nested_value item_data (data_location cm) = PNone"
  then have "computed_value cm item_data progress_data me_data = PNone"
    by (simp add: computed_value_def extract_value_def)
  then show "sync_column cfg m item_data progress_data me_data (config_name, cm) acc = acc"
    by (simp add: sync_column_null)
next
  assume "api_source cm = ''me''" and "get_nested_value me_data (data_location cm) = PNone"
  then have "computed_value cm item_data progress_data me_data = PNone"
    by (simp add: computed_value_def extract_value_def)
  then show "sync_column cfg m item_data progress_data me_data (config_name, cm) acc = acc"
    by (simp add: sync_column_null)
next
  assume "api_source cm = ''mediaProgress''" and "column_heading cm \<noteq> ''Audiobook Started''"
    and "get_nested_value progress_data (data_location cm) = PNone"
  then have "computed_value cm item_data progress_data me_data = PNone"
    by (simp add: computed_value_def extract_value_def)
  then show "sync_column cfg m item_data progress_data me_data (config_name, cm) acc = acc"
    by (simp add: sync_column_null)
qed

lemma ex_size_col_fields:
  "api_source ex_size_col = ''lib_items''"
  "data_location ex_size_col = [''size'']"
  by (simp_all add: ex_size_col_def)

text \<open>
  On the example item: a path that resolves, a path through a missing key, a path through
  a string, and a field whose source lacks the key.
\<close>

theorem nested_value_null_excluded_witness:
  "get_nested_value ex_item [''media'', ''metadata'', ''title''] = PStr ''Dune'' \<and>
   get_nested_value ex_item [''media'', ''chapters''] = PNone \<and>
   get_nested_value ex_item ([''media'', ''chapters''] @ [''title'']) = PNone \<and>
   get_nested_value ex_item ([''id''] @ [''title'']) = PNone \<and>
   api_source ex_size_col = ''lib_items'' \<and>
   get_nested_value ex_item (data_location ex_size_col) = PNone \<and>
   sync_column ex_shared_cfg ex_md_shared ex_item (PDict []) PNone
     (''column_audiobook_size'', ex_size_col) ([], new_entry ''Dune'') = ([], new_entry ''Dune'')"
proof -
  note t = nested_value_null_excluded [where data = ex_item and cm = ex_size_col
      and item_data = ex_item]
  have a: "get_nested_value ex_item [''media'', ''metadata'', ''title''] = PStr ''Dune''"
    by (simp add: ex_item_def dict_get_def)
  have b: "get_nested_value ex_item [''media'', ''chapters''] = PNone"
    by (simp add: ex_item_def dict_get_def)
  have q: "[''title''] \<noteq> ([] :: string list)" by simp
  from b have nd: "\<forall>d'. get_nested_value ex_item [''media'', ''chapters''] \<noteq> PDict d'" by simp
  have "get_nested_value ex_item [''id''] = PStr ''li_1''"
    by (simp add: ex_item_def dict_get_def)
  then have nd': "\<forall>d'. get_nested_value ex_item [''id''] \<noteq> PDict d'" by simp
  from t [where p = "[''media'', ''chapters'']" and q = "[''title'']"] q nd
  have c: "get_nested_value ex_item ([''media'', ''chapters''] @ [''title'']) = PNone" by blast
  from t [where p = "[''id'']" and q = "[''title'']"] q nd'
  have d: "get_nested_value ex_item ([''id''] @ [''title'']) = PNone" by blast
  have e: "get_nested_value ex_item (data_location ex_size_col) = PNone"
    by (simp add: ex_size_col_fields ex_item_def dict_get_def)
  from t [where cfg = ex_shared_cfg and m = ex_md_shared and progress_data = "PDict []"
      and me_data = PNone and config_name = "''column_audiobook_size''"
      and acc = "([], new_entry ''Dune'')"] e ex_size_col_fields(1)
  have f: "sync_column ex_shared_cfg ex_md_shared ex_item (PDict []) PNone
     (''column_audiobook_size'', ex_size_col) ([], new_entry ''Dune'') = ([], new_entry ''Dune'')"
    by blast
  from a b c d e f ex_size_col_fields(1) show ?thesis by blast
qed

lemma ex_started_update_set:
  "update_set ex_started_cfg ex_started_columns ex_md_new ex_item ex_prog ex_me_data =
     [(''#abs_started'', PBool True)]"
  by (simp add: update_set_def reconcile_def ex_started_columns_def sync_column_def
      ex_started_cfg_def config_get_def computed_value_def extract_value_def ex_started_col_def
      ex_prog_def dict_get_def md_get_def ex_md_new_def py_ne_def Let_def)

text \<open>
  The claim as first stated, for every field, fails for the started flag: the progress
  record of the example has no key \<^verbatim>\<open>isStarted\<close>, the extraction yields \<^verbatim>\<open>None\<close>, and
  the field is in the update set, with the value \<^verbatim>\<open>True\<close>.
\<close>

theorem null_extraction_started_counterexample:
  "api_source ex_started_col = ''mediaProgress'' \<and>
   get_nested_value ex_prog (data_location ex_started_col) = PNone \<and>
   update_set ex_started_cfg ex_started_columns ex_md_new ex_item ex_prog ex_me_data =
     [(''#abs_started'', PBool True)]"
  by (simp add: ex_started_update_set ex_started_col_fields)
    (simp add: ex_prog_def dict_get_def)

subsection \<open>Dictionaries with hashable keys\<close>

lemma py_eq_trans_hashable:
  "hashable b \<Longrightarrow> py_eq a b \<Longrightarrow> py_eq b c \<Longrightarrow> py_eq a c"
  by (cases b; cases a; cases c) (simp_all split: if_splits)

lemma keys_hashable_pd_set:
  "keys_hashable d \<Longrightarrow> hashable k \<Longrightarrow> keys_hashable (pd_set d k v)"
proof (induction d)
  case Nil
  then show ?case by (simp add: keys_hashable_def)
next
  case (Cons p d)
  obtain k0 v0 where p: "p = (k0, v0)" by (cases p)
  from Cons.prems p have h0: "hashable k0" and kd: "keys_hashable d"
    by (simp_all add: keys_hashable_def)
  from Cons.IH [OF kd Cons.prems(2)] h0 kd p show ?case
    by (simp add: keys_hashable_def)
qed

lemma pd_get_pd_set:
  "keys_hashable d \<Longrightarrow> hashable k \<Longrightarrow>
     pd_get (pd_set d k v) k' = (if py_eq k k' then Some v else pd_get d k')"
proof (induction d)
  case Nil
  then show ?case by simp
next
  case (Cons p d)
  obtain k0 v0 where p: "p = (k0, v0)" by (cases p)
  from Cons.prems p have h0: "hashable k0" and kd: "keys_hashable d"
    by (simp_all add: keys_hashable_def)
  note IH = Cons.IH [OF kd Cons.prems(2)]
  show ?case
  proof (cases "py_eq k0 k")
    case True
    have "py_eq k0 k' = py_eq k k'"
      using True h0 Cons.prems(2) py_eq_trans_hashable [of k0 k k'] py_eq_trans_hashable [of k k0 k']
      by (auto simp: py_eq_sym [of k k0])
    with True p show ?thesis by simp
  next
    case False
    have "\<not> (py_eq k0 k' \<and> py_eq k k')"
      using False Cons.prems(2) py_eq_trans_hashable [of k' k0 k] h0
        py_eq_trans_hashable [of k0 k' k]
      by (cases k'; cases k; cases k0) (auto split: if_splits)
    with False p IH show ?thesis by auto
  qed
qed

lemma pd_get_cong:
  "keys_hashable d \<Longrightarrow> hashable k \<Longrightarrow> py_eq k k' \<Longrightarrow> pd_get d k = pd_get d k'"
proof (induction d)
  case Nil
  then show ?case by simp
next
  case (Cons p d)
  obtain k0 v0 where p: "p = (k0, v0)" by (cases p)
  from Cons.prems p have h0: "hashable k0" and kd: "keys_hashable d"
    by (simp_all add: keys_hashable_def)
  have "py_eq k0 k = py_eq k0 k'"
    using Cons.prems(2,3) py_eq_trans_hashable [of k k0 k'] py_eq_trans_hashable [of k0 k k'] h0
    by (cases k'; cases k; cases k0) (auto split: if_splits)
  with Cons.IH [OF kd Cons.prems(2,3)] p show ?case by simp
qed

subsection \<open>The ISBN and ASIN indexes\<close>

lemma index_merge_step:
  "index_merge (index_merge old [x]) new = index_merge old (x # new)"
  by (simp add: index_merge_def)

lemma keys_hashable_pd_append:
  "keys_hashable index \<Longrightarrow> hashable k \<Longrightarrow> keys_hashable (pd_append index k item)"
  by (simp add: pd_append_def keys_hashable_pd_set)

lemma pd_get_pd_append:
  assumes "keys_hashable index" and "hashable k"
  shows "pd_get (pd_append index k item) k' =
           (if py_eq k k' then index_merge (pd_get index k') [item] else pd_get index k')"
proof (cases "py_eq k k'")
  case True
  with assms have "pd_get index k = pd_get index k'" by (rule pd_get_cong)
  with True assms show ?thesis
    by (simp add: pd_append_def pd_get_pd_set index_merge_def)
next
  case False
  with assms show ?thesis by (simp add: pd_append_def pd_get_pd_set)
qed

lemma build_indexes_get:
  "build_indexes items isbn0 asin0 = Inr (isbn_index, asin_index) \<Longrightarrow>
   keys_hashable isbn0 \<Longrightarrow> keys_hashable asin0 \<Longrightarrow>
     pd_get isbn_index k = index_merge (pd_get isbn0 k) (filter (shares_isbn k) items) \<and>
     pd_get asin_index k = index_merge (pd_get asin0 k) (filter (shares_asin k) items)"
proof (induction items arbitrary: isbn0 asin0)
  case Nil
  then show ?case by (simp add: index_merge_def)
next
  case (Cons item items)
  from Cons.prems(1) obtain isbn asin where ia: "item_isbn_asin item = Inr (isbn, asin)"
    by (auto split: sum.splits)
  define isbn1 where "isbn1 = (if truthy isbn then pd_append isbn0 isbn item else isbn0)"
  define asin1 where "asin1 = (if truthy asin then pd_append asin0 asin item else asin0)"
  from Cons.prems(1) ia have hi: "truthy isbn \<longrightarrow> hashable isbn"
    and ha: "truthy asin \<longrightarrow> hashable asin"
    and rest: "build_indexes items isbn1 asin1 = Inr (isbn_index, asin_index)"
    by (auto simp: isbn1_def asin1_def split: if_splits)
  from hi ha Cons.prems(2,3) have k1: "keys_hashable isbn1" "keys_hashable asin1"
    by (simp_all add: isbn1_def asin1_def keys_hashable_pd_append)
  have gi: "pd_get isbn1 k =
      (if shares_isbn k item then index_merge (pd_get isbn0 k) [item] else pd_get isbn0 k)"
    using hi Cons.prems(2) ia by (simp add: isbn1_def pd_get_pd_append shares_isbn_def)
  have ga: "pd_get asin1 k =
      (if shares_asin k item then index_merge (pd_get asin0 k) [item] else pd_get asin0 k)"
    using ha Cons.prems(3) ia by (simp add: asin1_def pd_get_pd_append shares_asin_def)
  from Cons.IH [OF rest k1] gi ga show ?case
    by (simp add: index_merge_step)
qed

lemma unique_match_isbn:
  assumes "build_indexes items [] [] = Inr (isbn_index, asin_index)"
  shows "unique_match isbn_index k =
           (if \<not> truthy k then Inr None
            else if \<not> hashable k then Inl TypeError
            else (case filter (shares_isbn k) items of [item] \<Rightarrow> Inr (Some item) | _ \<Rightarrow> Inr None))"
proof -
  from build_indexes_get [OF assms, of k]
  have "pd_get isbn_index k = index_merge None (filter (shares_isbn k) items)"
    by (simp add: keys_hashable_def)
  then show ?thesis
    by (simp add: unique_match_def index_merge_def split: list.splits)
qed

lemma unique_match_asin:
  assumes "build_indexes items [] [] = Inr (isbn_index, asin_index)"
  shows "unique_match asin_index k =
           (if \<not> truthy k then Inr None
            else if \<not> hashable k then Inl TypeError
            else (case filter (shares_asin k) items of [item] \<Rightarrow> Inr (Some item) | _ \<Rightarrow> Inr None))"
proof -
  from build_indexes_get [OF assms, of k]
  have "pd_get asin_index k = index_merge None (filter (shares_asin k) items)"
    by (simp add: keys_hashable_def)
  then show ?thesis
    by (simp add: unique_match_def index_merge_def split: list.splits)
qed

text \<open>An item that has a non-empty ISBN or ASIN is a non-empty dictionary with a
  metadata dictionary, so linking to it raises nothing.\<close>

lemma indexed_item_links:
  assumes "item_isbn_asin item = Inr (isbn, asin)" and "truthy isbn \<or> truthy asin"
  shows "truthy item \<and> (\<exists>abs_id md abs_title.
           py_get item ''id'' PNone = Inr abs_id \<and> item_metadata item = Inr md \<and>
           py_get md ''title'' (PStr ''Unknown Title'') = Inr abs_title)"
proof -
  from assms(1) obtain d where d: "item = PDict d"
    by (cases item) (simp_all add: item_isbn_asin_def item_metadata_def py_get_def)
  from assms(1) obtain md where md: "item_metadata item = Inr md"
    by (auto simp: item_isbn_asin_def split: sum.splits)
  with assms(1) obtain dm where dm: "md = PDict dm"
    by (cases md) (simp_all add: item_isbn_asin_def py_get_def)
  have "d \<noteq> []"
  proof
    assume "d = []"
    with d assms show False
      by (auto simp: item_isbn_asin_def item_metadata_def py_get_def)
  qed
  with d md dm show ?thesis by (simp add: py_get_def)
qed

lemma shares_isbn_links:
  assumes "shares_isbn k item"
  shows "truthy item \<and> (\<exists>abs_id md abs_title.
           py_get item ''id'' PNone = Inr abs_id \<and> item_metadata item = Inr md \<and>
           py_get md ''title'' (PStr ''Unknown Title'') = Inr abs_title)"
proof -
  from assms obtain isbn asin where "item_isbn_asin item = Inr (isbn, asin)" "truthy isbn"
    by (auto simp: shares_isbn_def split: sum.splits)
  then show ?thesis using indexed_item_links by blast
qed

lemma shares_asin_links:
  assumes "shares_asin k item"
  shows "truthy item \<and> (\<exists>abs_id md abs_title.
           py_get item ''id'' PNone = Inr abs_id \<and> item_metadata item = Inr md \<and>
           py_get md ''title'' (PStr ''Unknown Title'') = Inr abs_title)"
proof -
  from assms obtain isbn asin where "item_isbn_asin item = Inr (isbn, asin)" "truthy asin"
    by (auto simp: shares_asin_def split: sum.splits)
  then show ?thesis using indexed_item_links by blast
qed

end
